theory Spec2Isabelle
  imports Main "HOL-Library.Word" "HOL-Library.Multiset"
begin

section \<open>Results and loops\<close>

text \<open>
  The sources are C++.  The ways in which a piece of code does not finish normally are
  kept apart:
  \<^item> \<open>UndefinedBehaviour\<close>: an out-of-range \<open>operator[]\<close>, a call through a null pointer
    (an unset \<open>unique_ptr\<close>, a failed \<open>dynamic_cast\<close>, \<open>getenv\<close> of an unset variable turned
    into a \<open>std::string\<close>), a division by zero, a signed overflow, a read past the end of
    a buffer;
  \<^item> \<open>LengthError\<close>: \<open>std::vector::reserve\<close> asked for more than \<open>max_size()\<close>
    (it throws \<open>std::length_error\<close>);
  \<^item> \<open>CounterWraps\<close>: a loop whose \<open>unsigned int\<close> counter is compared with a
    \<open>size_t\<close> bound of \<open>2 ^ 32\<close> or more; the counter wraps to 0 before reaching the
    bound, the loop repeats its earlier iterations and never exits normally;
  \<^item> \<open>AssertionFailed\<close>: a failed \<open>assert\<close>;
  \<^item> \<open>UncaughtException\<close>: an exception thrown by the standard library or by the
    accelerator runtime, which nothing in the function catches.
\<close>

datatype error =
  UndefinedBehaviour | LengthError | CounterWraps | AssertionFailed | UncaughtException

type_synonym 'a result = "error + 'a"

definition bindE :: "'a result \<Rightarrow> ('a \<Rightarrow> 'b result) \<Rightarrow> 'b result" where
  "bindE m f = (case m of Inl e \<Rightarrow> Inl e | Inr x \<Rightarrow> f x)"

text \<open>\<open>foldE f is s\<close> runs the loop body \<open>f\<close> for the indices \<open>is\<close> in turn, threading
  the state and stopping at the first failure.\<close>

fun foldE :: "('i \<Rightarrow> 's \<Rightarrow> 's result) \<Rightarrow> 'i list \<Rightarrow> 's \<Rightarrow> 's result" where
  "foldE f [] s = Inr s"
| "foldE f (i # is) s = bindE (f i s) (foldE f is)"

text \<open>\<open>for (size_t i = 0; i < n; i++)\<close>.\<close>

definition for_size_t :: "nat \<Rightarrow> (nat \<Rightarrow> 's \<Rightarrow> 's result) \<Rightarrow> 's \<Rightarrow> 's result" where
  "for_size_t n f s = foldE f [0..<n] s"

text \<open>\<open>for (unsigned int i = 0; i < n; i++)\<close> with \<open>n\<close> a \<open>size_t\<close>.\<close>

definition for_unsigned :: "nat \<Rightarrow> (nat \<Rightarrow> 's \<Rightarrow> 's result) \<Rightarrow> 's \<Rightarrow> 's result" where
  "for_unsigned n f s =
     (if n < 2 ^ 32 then foldE f [0..<n] s
      else bindE (foldE f [0..<2 ^ 32] s) (\<lambda>_. Inl CounterWraps))"

text \<open>\<open>v[i]\<close> on a \<open>std::vector\<close>.\<close>

definition at :: "'a list \<Rightarrow> nat \<Rightarrow> 'a result" where
  "at v i = (if i < length v then Inr (v ! i) else Inl UndefinedBehaviour)"

text \<open>A range-\<open>for\<close> that appends one converted element per iteration.\<close>

fun mapE :: "('a \<Rightarrow> 'b result) \<Rightarrow> 'a list \<Rightarrow> 'b list result" where
  "mapE f [] = Inr []"
| "mapE f (x # xs) = bindE (f x) (\<lambda>y. bindE (mapE f xs) (\<lambda>ys. Inr (y # ys)))"

section \<open>Data model of the XModel worker\<close>

type_synonym byte = "8 word"

text \<open>Modelled from the spec: the types of requests, responses, batches and buffers, which
  are declared in headers that are not among the sources.  The spec describes them in its
  data model; the records below have the fields that the worker reads or writes, under the
  names of its accessors.

  Of \<open>proteus::types::DataType\<close> the element types that the worker names, and the rest of
  the enumeration by number.  The runtime's own element type descriptor (\<open>xir::DataType\<close>)
  is opaque to the worker.\<close>

datatype DataType = UINT8 | UINT32 | OtherDataType nat

type_synonym xir_DataType = string

text \<open>\<open>xir::Tensor\<close>: what the runtime reports about a tensor.  Dimensions are sizes:
  natural numbers.\<close>

record Tensor =
  tensor_name :: string
  tensor_shape :: "nat list"
  tensor_data_type :: xir_DataType

definition get_element_num :: "Tensor \<Rightarrow> nat" where
  "get_element_num t = prod_list (tensor_shape t)"

text \<open>\<open>vart::TensorBuffer\<close>: a tensor and the address of its memory.  The address is the
  identity of the buffer.\<close>

record TensorBuffer =
  tb_addr :: nat
  tb_tensor :: Tensor

text \<open>\<open>Buffer\<close> is a base class; \<open>VartTensorBuffer\<close> is the variant this worker allocates.
  \<open>data\<close> is the virtual \<open>Buffer::data()\<close>.\<close>

datatype Buffer = VartTensorBuffer TensorBuffer | OtherBuffer nat

type_synonym BufferPtrs = "Buffer list"

fun data :: "Buffer \<Rightarrow> nat" where
  "data (VartTensorBuffer tb) = tb_addr tb"
| "data (OtherBuffer a) = a"

text \<open>The host's view of memory when the responses are built: the bytes found from each
  buffer address on.  What the accelerator wrote there is not this repository's code.\<close>

type_synonym memory = "nat \<Rightarrow> byte list"

record InferenceRequestInput =
  input_name :: string

record InferenceRequestOutput =
  output_name :: string

text \<open>The completion callback is identified by a number.\<close>

record InferenceRequest =
  request_id :: string
  request_inputs :: "InferenceRequestInput list"
  request_outputs :: "InferenceRequestOutput list"
  request_callback :: nat

record InferenceResponseOutput =
  out_name :: string
  out_shape :: "nat list"
  out_datatype :: DataType
  out_data :: "byte list"

record InferenceResponse =
  response_id :: string
  response_model :: string
  response_outputs :: "InferenceResponseOutput list"

record Batch =
  requests :: "InferenceRequest list"
  input_buffers :: "BufferPtrs list"
  output_buffers :: "BufferPtrs list"

record Runner =
  input_tensors :: "Tensor list"
  output_tensors :: "Tensor list"

datatype attr_value = AttrString string | AttrU64 "64 word"

text \<open>\<open>xir::Subgraph\<close> with its attributes, and \<open>xir::Graph\<close> by what
  \<open>get_root_subgraph()->children_topological_sort()\<close> returns.\<close>

record Subgraph =
  subgraph_name :: string
  subgraph_attrs :: "(string \<times> attr_value) list"

record Graph =
  children_topological_sort :: "Subgraph list"

record ModelMetadata =
  metadata_inputs :: "(string \<times> DataType \<times> nat list) list"
  metadata_outputs :: "(string \<times> DataType \<times> nat list) list"

text \<open>The members of \<open>XModel\<close> and of its base \<open>Worker\<close> that the hooks read or write
  (\<open>kernel\<close> is \<open>kernel_\<close>, and so on).  The two queues of the buffer pool are
  \<open>input_buffers_queue\<close> and \<open>output_buffers_queue\<close>; \<open>pool_threads\<close> is \<open>pool_.size()\<close>;
  \<open>next_addr\<close> is the address the next allocation gets.\<close>

record XModel =
  graph :: "Graph option"
  subgraph :: "Subgraph option"
  kernel :: string
  runner :: "Runner option"
  input_type :: DataType
  input_size :: "32 word"
  output_type :: DataType
  output_size :: "32 word"
  batch_size :: nat
  max_buffer_num :: int
  metadata :: ModelMetadata
  input_buffers_queue :: "BufferPtrs list"
  output_buffers_queue :: "BufferPtrs list"
  next_addr :: nat
  pool_threads :: nat

text \<open>The constructor \<open>XModel()\<close>.\<close>

definition XModel_new :: XModel where
  "XModel_new =
     \<lparr>graph = None, subgraph = None, kernel = [], runner = None,
      input_type = UINT32, input_size = 0, output_type = UINT8, output_size = 0,
      batch_size = 0, max_buffer_num = 0,
      metadata = \<lparr>metadata_inputs = [], metadata_outputs = []\<rparr>,
      input_buffers_queue = [], output_buffers_queue = [], next_addr = 0,
      pool_threads = 0\<rparr>"

text \<open>\<open>getRunner()\<close>, dereferenced.\<close>

definition getRunner :: "XModel \<Rightarrow> Runner result" where
  "getRunner w = (case runner w of None \<Rightarrow> Inl UndefinedBehaviour | Some r \<Rightarrow> Inr r)"

section \<open>The task that processes one batch\<close>

text \<open>What the task does to the world outside it, in the order it does it.  A job token is
  the position of the job among the jobs the task submitted.\<close>

datatype event =
    SyncForWrite nat nat nat
  | ExecuteAsync "nat list" "nat list"
  | Wait nat
  | SyncForRead nat nat nat
  | Callback nat InferenceResponse
  | ReturnBuffers "BufferPtrs list" "BufferPtrs list"
  | PoolSizeDecrement

text \<open>\<open>dynamic_cast<VartTensorBuffer*>(buffer.get())->getTensorBuffer()\<close>: the cast of
  another kind of buffer is null, and the call through it undefined.\<close>

fun getTensorBuffer :: "Buffer \<Rightarrow> TensorBuffer result" where
  "getTensorBuffer (VartTensorBuffer tb) = Inr tb"
| "getTensorBuffer (OtherBuffer a) = Inl UndefinedBehaviour"

text \<open>\<open>tensor->get_element_num() / (tensor->get_shape())[0]\<close>.\<close>

definition sync_size :: "TensorBuffer \<Rightarrow> nat result" where
  "sync_size tb =
     bindE (at (tensor_shape (tb_tensor tb)) 0) (\<lambda>d.
       if d = 0 then Inl UndefinedBehaviour
       else Inr (get_element_num (tb_tensor tb) div d))"

definition sync_for_write :: "TensorBuffer \<Rightarrow> event result" where
  "sync_for_write tb = bindE (sync_size tb) (\<lambda>n. Inr (SyncForWrite (tb_addr tb) 0 n))"

definition sync_for_read :: "TensorBuffer \<Rightarrow> event result" where
  "sync_for_read tb = bindE (sync_size tb) (\<lambda>n. Inr (SyncForRead (tb_addr tb) 0 n))"

text \<open>\<open>memcpy(dst, src + off, n)\<close> out of a buffer whose content is \<open>src\<close>.\<close>

definition memcpy_from :: "byte list \<Rightarrow> nat \<Rightarrow> nat \<Rightarrow> byte list result" where
  "memcpy_from src off n =
     (if off + n \<le> length src then Inr (take n (drop off src)) else Inl UndefinedBehaviour)"

text \<open>Lines 247 to 280: one iteration of the submission loop.  The state is the queue of
  job tokens, \<open>outputs_ptrs_global\<close> and the events so far.\<close>

definition submit_body ::
  "XModel \<Rightarrow> Batch \<Rightarrow> nat \<Rightarrow> nat list \<times> TensorBuffer list \<times> event list
     \<Rightarrow> (nat list \<times> TensorBuffer list \<times> event list) result" where
  "submit_body w batch i = (\<lambda>(futures, outputs_ptrs_global, tr).
     bindE (at (input_buffers batch) i) (\<lambda>input_bufs.
     bindE (at (output_buffers batch) i) (\<lambda>output_bufs.
     bindE (mapE getTensorBuffer input_bufs) (\<lambda>inputsPtr.
     bindE (mapE getTensorBuffer output_bufs) (\<lambda>outputsPtr.
     bindE (if kernel w \<noteq> ''DPUCADF8H'' then mapE sync_for_write inputsPtr else Inr [])
       (\<lambda>syncs.
     bindE (getRunner w) (\<lambda>r.
     Inr (futures @ [length futures],
          outputs_ptrs_global @ outputsPtr,
          tr @ syncs @ [ExecuteAsync (map tb_addr inputsPtr) (map tb_addr outputsPtr)]))))))))"

text \<open>Lines 317 to 350: one iteration of the loop over the inputs of a request.  The state
  is \<open>tensor_count\<close> and the response under construction; \<open>output_index\<close> is the content
  of the memory that the pointer of that name points to.  The offset
  \<open>tensor_count * this->output_size_\<close> is the product of an \<open>int\<close> and a \<open>uint32_t\<close>,
  computed in 32 bits without sign.\<close>

definition output_body ::
  "XModel \<Rightarrow> byte list \<Rightarrow> InferenceRequestInput list \<Rightarrow> InferenceRequestOutput list
     \<Rightarrow> nat \<Rightarrow> nat \<times> InferenceResponse \<Rightarrow> (nat \<times> InferenceResponse) result" where
  "output_body w output_index inputs outputs i = (\<lambda>(tensor_count, resp).
     bindE (getRunner w) (\<lambda>r.
     bindE (at (output_tensors r) 0) (\<lambda>t0.
     let output_shape = tensor_shape t0 in
     if output_shape = [] then Inl LengthError
     else
       let new_shape = map (\<lambda>j. output_shape ! (j + 1)) [0..<length output_shape - 1] in
       bindE (memcpy_from output_index
                (unat (word_of_nat tensor_count * output_size w))
                (unat (output_size w))) (\<lambda>buffer.
       bindE (at outputs i) (\<lambda>out_decl.
       bindE (at inputs i) (\<lambda>inp.
       let name = (if output_name out_decl = [] then input_name inp else output_name out_decl);
           output = \<lparr>out_name = name, out_shape = new_shape,
                     out_datatype = output_type w, out_data = buffer\<rparr>
       in if tensor_count = 2 ^ 31 - 1 then Inl UndefinedBehaviour
          else Inr (tensor_count + 1,
                    resp\<lparr>response_outputs := response_outputs resp @ [output]\<rparr>)))))))"

text \<open>Lines 311 to 357: one iteration of the loop over the requests.  The state is
  \<open>tensor_count\<close>, the vector \<open>responses\<close> and the events so far.\<close>

definition respond_body ::
  "XModel \<Rightarrow> Batch \<Rightarrow> byte list \<Rightarrow> nat \<Rightarrow> nat \<times> InferenceResponse list \<times> event list
     \<Rightarrow> (nat \<times> InferenceResponse list \<times> event list) result" where
  "respond_body w batch output_index k = (\<lambda>(tensor_count, responses, tr).
     bindE (at (requests batch) k) (\<lambda>req.
     let inputs = request_inputs req; outputs = request_outputs req in
     bindE (at responses k) (\<lambda>resp.
     bindE (for_unsigned (length inputs) (output_body w output_index inputs outputs)
              (tensor_count, resp)) (\<lambda>(tensor_count', resp').
     Inr (tensor_count', responses[k := resp'],
          tr @ [Callback (request_callback req) resp'])))))"

text \<open>Lines 286 to 290: the response of a request before any output is added.\<close>

definition initial_response :: "InferenceRequest \<Rightarrow> InferenceResponse" where
  "initial_response req =
     \<lparr>response_id = request_id req, response_model = ''xmodel'', response_outputs = []\<rparr>"

text \<open>Lines 242 to 362: the task pushed to the thread pool.\<close>

definition doRun_task :: "XModel \<Rightarrow> memory \<Rightarrow> Batch \<Rightarrow> event list result" where
  "doRun_task w mem batch =
     bindE (for_size_t (length (input_buffers batch)) (submit_body w batch) ([], [], []))
       (\<lambda>(futures, outputs_ptrs_global, tr1).
     let responses = map initial_response (requests batch);
         tr2 = tr1 @ map Wait futures
     in
     bindE (if kernel w \<noteq> ''DPUCADF8H'' then mapE sync_for_read outputs_ptrs_global
            else Inr []) (\<lambda>syncs.
     bindE (at (output_buffers batch) 0) (\<lambda>set0.
     bindE (at set0 0) (\<lambda>buf00.
     let output_index = mem (data buf00) in
     bindE (for_unsigned (length (requests batch)) (respond_body w batch output_index)
              (0, responses, tr2 @ syncs)) (\<lambda>(tensor_count, responses', tr3).
     Inr (tr3 @ [ReturnBuffers (input_buffers batch) (output_buffers batch),
                 PoolSizeDecrement]))))))"

section \<open>The consumer of the batch queue\<close>

text \<open>One return of \<open>wait_dequeue\<close>: what was dequeued (\<open>None\<close> is the null batch), and
  how many tasks reached their \<open>pool_size--\<close> since the previous comparison of
  \<open>pool_size\<close>.\<close>

record arrival =
  finished :: nat
  dequeued :: "Batch option"

datatype run_event = Sleep nat | Push Batch | Ending

text \<open>Lines 223 to 363.  \<open>pool_size\<close> is a \<open>std::atomic_int32_t\<close>; \<open>Sleep\<close> counts
  milliseconds; \<open>Push batch\<close> hands the task for \<open>batch\<close> to the thread pool; with no
  arrival left the thread waits in \<open>wait_dequeue\<close>.\<close>

fun doRun_loop :: "int \<Rightarrow> 32 word \<Rightarrow> arrival list \<Rightarrow> run_event list" where
  "doRun_loop max_pool_size pool_size [] = []"
| "doRun_loop max_pool_size pool_size (a # as) =
     (case dequeued a of
        None \<Rightarrow> [Ending]
      | Some batch \<Rightarrow>
          let pool_size' = pool_size - word_of_nat (finished a) + 1
          in (if max_pool_size < sint pool_size' then [Sleep 10] else [])
             @ Push batch # doRun_loop max_pool_size pool_size' as)"

text \<open>Lines 216 to 365; \<open>max_pool_size\<close> is an \<open>int\<close>.\<close>

definition doRun :: "XModel \<Rightarrow> arrival list \<Rightarrow> run_event list result" where
  "doRun w arrivals =
     (if 2 ^ 31 \<le> pool_threads w * 4 then Inl UndefinedBehaviour
      else Inr (doRun_loop (int (pool_threads w * 4)) 0 arrivals))"

section \<open>Allocation\<close>

text \<open>\<open>std::make_unique<VartTensorBuffer>(name, shape, type)\<close> for each tensor in turn: new
  buffers at the addresses from \<open>a\<close> on.\<close>

definition new_buffers :: "Tensor list \<Rightarrow> nat \<Rightarrow> BufferPtrs" where
  "new_buffers ts a =
     map (\<lambda>(j, t). VartTensorBuffer \<lparr>tb_addr = a + j, tb_tensor = t\<rparr>) (enumerate 0 ts)"

text \<open>Lines 181 to 191 and 192 to 202: the bodies of the two loops.\<close>

definition allocate_input_set :: "nat \<Rightarrow> XModel \<Rightarrow> XModel result" where
  "allocate_input_set i w =
     bindE (getRunner w) (\<lambda>r.
       let vec = new_buffers (input_tensors r) (next_addr w)
       in Inr (w\<lparr>input_buffers_queue := input_buffers_queue w @ [vec],
                next_addr := next_addr w + length vec\<rparr>))"

definition allocate_output_set :: "nat \<Rightarrow> XModel \<Rightarrow> XModel result" where
  "allocate_output_set i w =
     bindE (getRunner w) (\<lambda>r.
       let vec = new_buffers (output_tensors r) (next_addr w)
       in Inr (w\<lparr>output_buffers_queue := output_buffers_queue w @ [vec],
                next_addr := next_addr w + length vec\<rparr>))"

text \<open>\<open>static_cast<int>(num) == kNumBufferAuto\<close>, with \<open>num\<close> a \<open>size_t\<close>: the test
  reads the low 32 bits of \<open>num\<close> as a signed number.  The constant \<open>kNumBufferAuto\<close> is
  declared outside the sources at hand and is a parameter.\<close>

definition requests_auto :: "int \<Rightarrow> 64 word \<Rightarrow> bool" where
  "requests_auto kNumBufferAuto num \<longleftrightarrow> sint (ucast num :: 32 word) = kNumBufferAuto"

text \<open>Lines 176 to 204.\<close>

definition doAllocate :: "int \<Rightarrow> 64 word \<Rightarrow> XModel \<Rightarrow> (XModel \<times> 64 word) result" where
  "doAllocate kNumBufferAuto num w =
     (let buffer_num = (if requests_auto kNumBufferAuto num then 10 else num) in
      bindE (for_size_t (unat buffer_num) allocate_input_set w) (\<lambda>w1.
      bindE (for_size_t (unat buffer_num) allocate_output_set w1) (\<lambda>w2.
      Inr (w2, buffer_num))))"

section \<open>Initialisation\<close>

text \<open>Modelled from the spec: \<open>RequestParameters\<close>, declared outside the sources; the spec's
  configuration is ``a mapping of option name to value''.  \<open>get<T>\<close> of a value of another
  type throws.\<close>

datatype param_value = ParamInt int | ParamString string | ParamBool bool

type_synonym RequestParameters = "(string \<times> param_value) list"

definition has_param :: "RequestParameters \<Rightarrow> string \<Rightarrow> bool" where
  "has_param p k \<longleftrightarrow> map_of p k \<noteq> None"

definition get_int32 :: "RequestParameters \<Rightarrow> string \<Rightarrow> int result" where
  "get_int32 p k = (case map_of p k of Some (ParamInt n) \<Rightarrow> Inr n | _ \<Rightarrow> Inl UncaughtException)"

definition get_string :: "RequestParameters \<Rightarrow> string \<Rightarrow> string result" where
  "get_string p k =
     (case map_of p k of Some (ParamString s) \<Rightarrow> Inr s | _ \<Rightarrow> Inl UncaughtException)"

text \<open>What \<open>doInit\<close> calls outside this repository: the process environment, the expansion
  of environment variables in a path, and the accelerator runtime.  \<open>deserialize\<close> is
  \<open>None\<close> where \<open>xir::Graph::deserialize\<close> cannot locate or parse the file; the runtime
  then throws.\<close>

record Runtime =
  getenv :: "string \<Rightarrow> string option"
  autoExpandEnvironmentVariables :: "string \<Rightarrow> string"
  deserialize :: "string \<Rightarrow> Graph option"
  target_type :: "64 word \<Rightarrow> string"
  create_runner :: "Subgraph \<Rightarrow> Runner"
  mapXirType :: "xir_DataType \<Rightarrow> DataType"

definition has_attr :: "Subgraph \<Rightarrow> string \<Rightarrow> bool" where
  "has_attr c k \<longleftrightarrow> map_of (subgraph_attrs c) k \<noteq> None"

text \<open>\<open>get_attr<T>\<close>: the runtime throws where the attribute is absent or of another
  type.\<close>

definition get_attr_string :: "Subgraph \<Rightarrow> string \<Rightarrow> string result" where
  "get_attr_string c k =
     (case map_of (subgraph_attrs c) k of
        Some (AttrString s) \<Rightarrow> Inr s | _ \<Rightarrow> Inl UncaughtException)"

definition get_attr_u64 :: "Subgraph \<Rightarrow> string \<Rightarrow> 64 word result" where
  "get_attr_u64 c k =
     (case map_of (subgraph_attrs c) k of
        Some (AttrU64 n) \<Rightarrow> Inr n | _ \<Rightarrow> Inl UncaughtException)"

text \<open>Lines 134 to 141: the subgraphs whose \<open>device\<close> attribute is \<open>DPU\<close>.\<close>

definition collect_dpu :: "Subgraph \<Rightarrow> Subgraph list \<Rightarrow> Subgraph list result" where
  "collect_dpu c dpu_graphs =
     bindE (get_attr_string c ''device'') (\<lambda>device.
       Inr (if device = ''DPU'' then dpu_graphs @ [c] else dpu_graphs))"

text \<open>\<open>std::accumulate(first, last, 1, std::multiplies<>())\<close>: the accumulator has the type
  of the initial value, \<open>int\<close>.\<close>

fun accumulate_mult :: "int \<Rightarrow> nat list \<Rightarrow> int result" where
  "accumulate_mult acc [] = Inr acc"
| "accumulate_mult acc (d # ds) =
     (if 2 ^ 31 \<le> acc * int d then Inl UndefinedBehaviour
      else accumulate_mult (acc * int d) ds)"

text \<open>Lines 159 to 161 and 168 to 169: the product of the dimensions after the first, as a
  \<open>uint32_t\<close>, and the first dimension.  \<open>shape.begin() + 1\<close> is undefined on an empty
  shape.\<close>

definition size_without_batch :: "nat list \<Rightarrow> (32 word \<times> nat) result" where
  "size_without_batch shape =
     (case shape of
        [] \<Rightarrow> Inl UndefinedBehaviour
      | d # ds \<Rightarrow> bindE (accumulate_mult 1 ds) (\<lambda>p. Inr (word_of_int p, d)))"

text \<open>Lines 145 to 151.\<close>

definition kernel_of :: "Runtime \<Rightarrow> Subgraph \<Rightarrow> string result" where
  "kernel_of rt sg =
     (if has_attr sg ''dpu_fingerprint''
      then bindE (get_attr_u64 sg ''dpu_fingerprint'') (\<lambda>fingerprint.
             Inr (target_type rt fingerprint))
      else get_attr_string sg ''kernel'')"

text \<open>Lines 113 to 174.\<close>

definition doInit :: "Runtime \<Rightarrow> RequestParameters \<Rightarrow> XModel \<Rightarrow> XModel result" where
  "doInit rt parameters w =
     (case getenv rt ''AKS_XMODEL_ROOT'' of
        None \<Rightarrow> Inl UndefinedBehaviour
      | Some root \<Rightarrow>
     let kPath = root @ ''/artifacts/u200_u250/resnet_v1_50_tf/resnet_v1_50_tf.xmodel'' in
     bindE (if has_param parameters ''max_buffer_num''
            then get_int32 parameters ''max_buffer_num'' else Inr 50) (\<lambda>max_buffer_num'.
     bindE (if has_param parameters ''xmodel''
            then get_string parameters ''xmodel'' else Inr kPath) (\<lambda>path.
     case deserialize rt (autoExpandEnvironmentVariables rt path) of
        None \<Rightarrow> Inl UncaughtException
      | Some graph' \<Rightarrow>
     bindE (foldE collect_dpu (children_topological_sort graph') []) (\<lambda>dpu_graphs.
     bindE (at dpu_graphs 0) (\<lambda>sg.
     bindE (kernel_of rt sg) (\<lambda>kernel'.
     let r = create_runner rt sg in
     bindE (at (input_tensors r) 0) (\<lambda>in0.
     bindE (size_without_batch (tensor_shape in0)) (\<lambda>(input_size', batch_size').
     bindE (at (output_tensors r) 0) (\<lambda>out0.
     bindE (size_without_batch (tensor_shape out0)) (\<lambda>(output_size', _).
     Inr (w\<lparr>max_buffer_num := max_buffer_num',
             graph := Some graph',
             subgraph := Some sg,
             kernel := kernel',
             runner := Some r,
             input_type := mapXirType rt (tensor_data_type in0),
             input_size := input_size',
             batch_size := batch_size',
             output_type := mapXirType rt (tensor_data_type out0),
             output_size := output_size',
             metadata :=
               \<lparr>metadata_inputs = metadata_inputs (metadata w)
                  @ [(''input'', mapXirType rt (tensor_data_type in0), tensor_shape in0)],
                metadata_outputs = metadata_outputs (metadata w)
                  @ [(''output'', mapXirType rt (tensor_data_type out0), tensor_shape out0)]\<rparr>
            \<rparr>)))))))))))"

section \<open>The completion adapter\<close>

text \<open>Modelled from the spec: \<open>amdinfer::InferenceResponse\<close>, declared outside the sources,
  as \<open>FinishQuery\<close> reads it: \<open>isError()\<close>, \<open>getID()\<close>, and of each output \<open>getData()\<close>, as
  an address, and \<open>getSize()\<close>.\<close>

record ResponseOutput =
  getData :: nat
  getSize :: nat

record Response =
  isError :: bool
  getID :: string
  getOutputs :: "ResponseOutput list"

text \<open>What \<open>FinishQuery\<close> does to the world outside it: a line on \<open>std::cout\<close>, and
  \<open>mlperf::QuerySamplesComplete\<close> of one result with its identifier, data and size.\<close>

datatype sut_event = Cout string | QuerySamplesComplete nat nat nat

text \<open>Lines 62 to 78: the body for one future, \<open>response\<close> being what the future resolved
  to.  \<open>std::stoul\<close> is a parameter: \<open>None\<close> where it throws.\<close>

definition finish_one ::
  "(string \<Rightarrow> nat option) \<Rightarrow> Response \<Rightarrow> sut_event list \<Rightarrow> sut_event list result" where
  "finish_one stoul response evs =
     (if isError response
      then Inr (evs @ [Cout (''Error encountered in response. App may hang'' @ [CHR 0x0A])])
      else
        let outputs = getOutputs response in
        if length outputs \<noteq> 1 then Inl AssertionFailed
        else
          bindE (at outputs 0) (\<lambda>output.
          case stoul (getID response) of
            None \<Rightarrow> Inl UncaughtException
          | Some n \<Rightarrow> Inr (evs @ [QuerySamplesComplete n (getData output) (getSize output)])))"

text \<open>Lines 57 to 80.  Each element of the second argument is what one call of
  \<open>wait_dequeue_bulk\<close> took from the queue, resolved, \<open>max = 16\<close> futures at most.
  \<open>futures.reserve(max)\<close> gives the vector \<open>futures\<close> capacity and leaves it empty; what
  \<open>wait_dequeue_bulk\<close> writes through \<open>futures.begin()\<close> does not become an element of
  it, so \<open>futures[i]\<close> indexes a vector of size 0.  With nothing left to dequeue the thread
  waits in \<open>wait_dequeue_bulk\<close>: \<open>Inr\<close> is the loop still running, with the events so
  far.\<close>

fun FinishQuery ::
  "(string \<Rightarrow> nat option) \<Rightarrow> Response list list \<Rightarrow> sut_event list \<Rightarrow> sut_event list result"
  where
  "FinishQuery stoul [] evs = Inr evs"
| "FinishQuery stoul (moved # rest) evs =
     (let futures = ([] :: Response list);
          returned = length (take 16 moved)
      in bindE (for_unsigned returned
                  (\<lambda>i evs. bindE (at futures i) (\<lambda>response. finish_one stoul response evs))
                  evs)
           (FinishQuery stoul rest))"

section \<open>The buffer pool during Run\<close>

text \<open>The sets held by the batches in flight.\<close>

record pool_state =
  queued_inputs :: "BufferPtrs list"
  queued_outputs :: "BufferPtrs list"
  in_flight :: "Batch list"

text \<open>Modelled from the spec: \<open>Worker::returnBuffers\<close>, which the task calls at line 358 and
  whose body is not among the sources.  The spec: ``\<open>return(set)\<close> re-enqueues a previously
  checked-out set''.\<close>

definition returnBuffers :: "BufferPtrs list \<Rightarrow> BufferPtrs list \<Rightarrow> pool_state \<Rightarrow> pool_state" where
  "returnBuffers ins outs s =
     s\<lparr>queued_inputs := queued_inputs s @ ins, queued_outputs := queued_outputs s @ outs\<rparr>"

text \<open>The effect of one event of a task on the pool.\<close>

fun pool_event :: "event \<Rightarrow> pool_state \<Rightarrow> pool_state" where
  "pool_event (ReturnBuffers ins outs) s = returnBuffers ins outs s"
| "pool_event e s = s"

text \<open>Modelled from the spec: the checkout of buffer sets by the batcher, which is not
  among the sources.  The spec: ``\<open>checkout(setKind)\<close> blocks until a Buffer set of the
  requested kind is available, then removes and returns it''.  A batch is assembled from
  \<open>m\<close> input sets and \<open>n\<close> output sets taken from the front of the queues.\<close>

definition checkout :: "InferenceRequest list \<Rightarrow> nat \<Rightarrow> nat \<Rightarrow> pool_state \<Rightarrow> pool_state" where
  "checkout reqs m n s =
     \<lparr>queued_inputs = drop m (queued_inputs s),
      queued_outputs = drop n (queued_outputs s),
      in_flight = in_flight s @
        [\<lparr>requests = reqs, input_buffers = take m (queued_inputs s),
          output_buffers = take n (queued_outputs s)\<rparr>]\<rparr>"

text \<open>The steps of the pool while the worker runs, in any interleaving: the batcher
  checks sets out for a new batch, or the task of a batch in flight runs to its end.\<close>

inductive run_step :: "XModel \<Rightarrow> pool_state \<Rightarrow> pool_state \<Rightarrow> bool" for w :: XModel where
  step_checkout:
    "m \<le> length (queued_inputs s) \<Longrightarrow> n \<le> length (queued_outputs s) \<Longrightarrow>
     run_step w s (checkout reqs m n s)"
| step_task:
    "i < length (in_flight s) \<Longrightarrow> doRun_task w mem (in_flight s ! i) = Inr tr \<Longrightarrow>
     run_step w s
       (fold pool_event tr (s\<lparr>in_flight := take i (in_flight s) @ drop (Suc i) (in_flight s)\<rparr>))"

inductive reachable :: "XModel \<Rightarrow> pool_state \<Rightarrow> pool_state \<Rightarrow> bool" for w :: XModel where
  reach_start: "reachable w s s"
| reach_step: "reachable w s s' \<Longrightarrow> run_step w s' s'' \<Longrightarrow> reachable w s s''"

text \<open>The pool as \<open>doAllocate\<close> leaves it.\<close>

definition pool_of :: "XModel \<Rightarrow> pool_state" where
  "pool_of w =
     \<lparr>queued_inputs = input_buffers_queue w, queued_outputs = output_buffers_queue w,
      in_flight = []\<rparr>"

definition checked_out_inputs :: "pool_state \<Rightarrow> BufferPtrs list" where
  "checked_out_inputs s = concat (map input_buffers (in_flight s))"

definition checked_out_outputs :: "pool_state \<Rightarrow> BufferPtrs list" where
  "checked_out_outputs s = concat (map output_buffers (in_flight s))"

section \<open>What a well-formed batch produces\<close>

text \<open>The conditions under which every step of the task is defined: the runner is set and
  reports an output tensor of non-empty shape, every indexed element exists, every buffer
  of a submitted set is a \<open>VartTensorBuffer\<close> whose tensor has a non-zero leading dimension
  (needed only where the buffers are synchronised), the 32-bit counters do not wrap, and
  every region that the task copies lies inside the memory of the first buffer of the
  first output set: for the \<open>n\<close>-th tensor the region of \<open>output_size\<close> bytes at the offset
  that the code computes, the product \<open>n * output_size\<close> in 32 bits without sign.\<close>

fun is_vart :: "Buffer \<Rightarrow> bool" where
  "is_vart (VartTensorBuffer tb) = True"
| "is_vart (OtherBuffer a) = False"

definition tensor_buffers :: "BufferPtrs \<Rightarrow> TensorBuffer list" where
  "tensor_buffers bs = [tb. VartTensorBuffer tb \<leftarrow> bs]"

definition sync_defined :: "TensorBuffer \<Rightarrow> bool" where
  "sync_defined tb \<longleftrightarrow>
     tensor_shape (tb_tensor tb) \<noteq> [] \<and> hd (tensor_shape (tb_tensor tb)) \<noteq> 0"

definition tensor_total :: "Batch \<Rightarrow> nat" where
  "tensor_total b = sum_list (map (\<lambda>r. length (request_inputs r)) (requests b))"

definition first_output :: "Batch \<Rightarrow> nat" where
  "first_output b = data (hd (hd (output_buffers b)))"

definition runner_output_shape :: "XModel \<Rightarrow> nat list" where
  "runner_output_shape w =
     (case runner w of None \<Rightarrow> [] | Some r \<Rightarrow>
        (case output_tensors r of [] \<Rightarrow> [] | t0 # ts \<Rightarrow> tensor_shape t0))"

definition batch_ok :: "XModel \<Rightarrow> memory \<Rightarrow> Batch \<Rightarrow> bool" where
  "batch_ok w mem b \<longleftrightarrow>
     length (input_buffers b) \<le> length (output_buffers b) \<and>
     (\<forall>(bi, bo) \<in> set (zip (input_buffers b) (output_buffers b)).
        (\<forall>x \<in> set bi \<union> set bo. is_vart x) \<and>
        (kernel w \<noteq> ''DPUCADF8H'' \<longrightarrow>
           (\<forall>tb \<in> set (tensor_buffers bi) \<union> set (tensor_buffers bo). sync_defined tb))) \<and>
     output_buffers b \<noteq> [] \<and> hd (output_buffers b) \<noteq> [] \<and>
     runner_output_shape w \<noteq> [] \<and>
     length (requests b) < 2 ^ 32 \<and>
     (\<forall>r \<in> set (requests b). length (request_inputs r) \<le> length (request_outputs r)) \<and>
     tensor_total b < 2 ^ 31 \<and>
     (\<forall>n < tensor_total b.
        (n * unat (output_size w)) mod 2 ^ 32 + unat (output_size w)
          \<le> length (mem (first_output b)))"

text \<open>The events of a well-formed batch, written without loops.\<close>

definition sync_len :: "TensorBuffer \<Rightarrow> nat" where
  "sync_len tb = get_element_num (tb_tensor tb) div hd (tensor_shape (tb_tensor tb))"

definition write_sync :: "TensorBuffer \<Rightarrow> event" where
  "write_sync tb = SyncForWrite (tb_addr tb) 0 (sync_len tb)"

definition read_sync :: "TensorBuffer \<Rightarrow> event" where
  "read_sync tb = SyncForRead (tb_addr tb) 0 (sync_len tb)"

definition submission :: "BufferPtrs \<times> BufferPtrs \<Rightarrow> event" where
  "submission p =
     ExecuteAsync (map tb_addr (tensor_buffers (fst p))) (map tb_addr (tensor_buffers (snd p)))"

definition job_events :: "XModel \<Rightarrow> BufferPtrs \<times> BufferPtrs \<Rightarrow> event list" where
  "job_events w p =
     (if kernel w \<noteq> ''DPUCADF8H'' then map write_sync (tensor_buffers (fst p)) else [])
     @ [submission p]"

definition submitted_outputs :: "Batch \<Rightarrow> TensorBuffer list" where
  "submitted_outputs b =
     concat (map tensor_buffers (take (length (input_buffers b)) (output_buffers b)))"

definition tensors_before :: "Batch \<Rightarrow> nat \<Rightarrow> nat" where
  "tensors_before b k =
     sum_list (map (\<lambda>r. length (request_inputs r)) (take k (requests b)))"

definition built_output ::
  "XModel \<Rightarrow> byte list \<Rightarrow> InferenceRequest \<Rightarrow> nat \<Rightarrow> nat \<Rightarrow> InferenceResponseOutput" where
  "built_output w src req base i =
     \<lparr>out_name = (if output_name (request_outputs req ! i) = []
                  then input_name (request_inputs req ! i)
                  else output_name (request_outputs req ! i)),
      out_shape = tl (runner_output_shape w),
      out_datatype = output_type w,
      out_data = take (unat (output_size w))
                   (drop (((base + i) * unat (output_size w)) mod 2 ^ 32) src)\<rparr>"

definition built_response :: "XModel \<Rightarrow> memory \<Rightarrow> Batch \<Rightarrow> nat \<Rightarrow> InferenceResponse" where
  "built_response w mem b k =
     \<lparr>response_id = request_id (requests b ! k),
      response_model = ''xmodel'',
      response_outputs =
        map (built_output w (mem (first_output b)) (requests b ! k) (tensors_before b k))
          [0..<length (request_inputs (requests b ! k))]\<rparr>"

definition callback_events :: "XModel \<Rightarrow> memory \<Rightarrow> Batch \<Rightarrow> event list" where
  "callback_events w mem b =
     map (\<lambda>k. Callback (request_callback (requests b ! k)) (built_response w mem b k))
       [0..<length (requests b)]"

definition task_trace :: "XModel \<Rightarrow> memory \<Rightarrow> Batch \<Rightarrow> event list" where
  "task_trace w mem b =
     concat (map (job_events w) (zip (input_buffers b) (output_buffers b)))
     @ map Wait [0..<length (input_buffers b)]
     @ (if kernel w \<noteq> ''DPUCADF8H'' then map read_sync (submitted_outputs b) else [])
     @ callback_events w mem b
     @ [ReturnBuffers (input_buffers b) (output_buffers b), PoolSizeDecrement]"

text \<open>The states of the three loops of the task after \<open>i\<close> iterations.\<close>

definition submit_state ::
  "XModel \<Rightarrow> Batch \<Rightarrow> nat \<Rightarrow> nat list \<times> TensorBuffer list \<times> event list" where
  "submit_state w b i =
     ([0..<i], concat (map tensor_buffers (take i (output_buffers b))),
      concat (map (job_events w) (take i (zip (input_buffers b) (output_buffers b)))))"

definition output_state ::
  "XModel \<Rightarrow> byte list \<Rightarrow> InferenceRequest \<Rightarrow> nat \<Rightarrow> nat \<Rightarrow> nat \<times> InferenceResponse" where
  "output_state w src req base i =
     (base + i,
      \<lparr>response_id = request_id req, response_model = ''xmodel'',
       response_outputs = map (built_output w src req base) [0..<i]\<rparr>)"

definition respond_state ::
  "XModel \<Rightarrow> memory \<Rightarrow> Batch \<Rightarrow> event list \<Rightarrow> nat
     \<Rightarrow> nat \<times> InferenceResponse list \<times> event list" where
  "respond_state w mem b tr k =
     (tensors_before b k,
      map (\<lambda>j. if j < k then built_response w mem b j else initial_response (requests b ! j))
        [0..<length (requests b)],
      tr @ map (\<lambda>j. Callback (request_callback (requests b ! j)) (built_response w mem b j))
             [0..<k])"

text \<open>What a trace shows: the callbacks fired with their responses, the buffers returned,
  the synchronisations.\<close>

fun callback_of :: "event \<Rightarrow> (nat \<times> InferenceResponse) list" where
  "callback_of (Callback c r) = [(c, r)]"
| "callback_of e = []"

definition callbacks_fired :: "event list \<Rightarrow> (nat \<times> InferenceResponse) list" where
  "callbacks_fired tr = concat (map callback_of tr)"

fun is_return :: "event \<Rightarrow> bool" where
  "is_return (ReturnBuffers ins outs) = True"
| "is_return e = False"

fun is_sync :: "event \<Rightarrow> bool" where
  "is_sync (SyncForWrite a off n) = True"
| "is_sync (SyncForRead a off n) = True"
| "is_sync e = False"

text \<open>The output tensors of a trace, in the order in which they were emitted.\<close>

definition emitted_outputs :: "event list \<Rightarrow> InferenceResponseOutput list" where
  "emitted_outputs tr = concat (map (\<lambda>p. response_outputs (snd p)) (callbacks_fired tr))"

section \<open>What allocation produces\<close>

text \<open>\<open>n\<close> buffer sets for the tensors \<open>ts\<close>, allocated one after the other from address
  \<open>a\<close> on.\<close>

definition allocated_sets :: "Tensor list \<Rightarrow> nat \<Rightarrow> nat \<Rightarrow> BufferPtrs list" where
  "allocated_sets ts a n = map (\<lambda>j. new_buffers ts (a + j * length ts)) [0..<n]"

section \<open>What the consumer loop produces\<close>

text \<open>The batches dequeued before the null batch, the values of \<open>pool_size\<close> that the
  comparisons at line 239 read, and whether the null batch was reached.\<close>

fun accepted :: "arrival list \<Rightarrow> Batch list" where
  "accepted [] = []"
| "accepted (a # as) = (case dequeued a of None \<Rightarrow> [] | Some batch \<Rightarrow> batch # accepted as)"

fun compared :: "32 word \<Rightarrow> arrival list \<Rightarrow> 32 word list" where
  "compared pool_size [] = []"
| "compared pool_size (a # as) =
     (case dequeued a of
        None \<Rightarrow> []
      | Some batch \<Rightarrow>
          (pool_size - word_of_nat (finished a) + 1)
          # compared (pool_size - word_of_nat (finished a) + 1) as)"

definition shut_down :: "arrival list \<Rightarrow> bool" where
  "shut_down as \<longleftrightarrow> None \<in> set (map dequeued as)"

fun pushed :: "run_event \<Rightarrow> Batch list" where
  "pushed (Push batch) = [batch]"
| "pushed e = []"

definition dispatch :: "int \<Rightarrow> 32 word \<times> Batch \<Rightarrow> run_event list" where
  "dispatch max_pool_size p =
     (if max_pool_size < sint (fst p) then [Sleep 10] else []) @ [Push (snd p)]"

section \<open>A worker, a batch and a queue to try the statements on\<close>

definition example_tensor :: Tensor where
  "example_tensor = \<lparr>tensor_name = ''t'', tensor_shape = [2, 3], tensor_data_type = ''XINT8''\<rparr>"

definition example_worker :: XModel where
  "example_worker =
     XModel_new\<lparr>kernel := ''DPUCZDX8G'',
       runner := Some \<lparr>input_tensors = [example_tensor], output_tensors = [example_tensor]\<rparr>,
       input_size := 3, output_size := 3, batch_size := 2, pool_threads := 1\<rparr>"

definition example_memory :: memory where
  "example_memory a = (if a = 2 then [11, 12, 13, 14, 15, 16] else [])"

definition example_batch :: Batch where
  "example_batch =
     \<lparr>requests =
        [\<lparr>request_id = ''a'', request_inputs = [\<lparr>input_name = ''x''\<rparr>],
          request_outputs = [\<lparr>output_name = ''''\<rparr>], request_callback = 7\<rparr>,
         \<lparr>request_id = ''b'', request_inputs = [\<lparr>input_name = ''y''\<rparr>],
          request_outputs = [\<lparr>output_name = ''z''\<rparr>], request_callback = 8\<rparr>],
      input_buffers = [[VartTensorBuffer \<lparr>tb_addr = 1, tb_tensor = example_tensor\<rparr>]],
      output_buffers = [[VartTensorBuffer \<lparr>tb_addr = 2, tb_tensor = example_tensor\<rparr>]]\<rparr>"

definition example_arrivals :: "arrival list" where
  "example_arrivals =
     [\<lparr>finished = 0, dequeued = Some example_batch\<rparr>,
      \<lparr>finished = 0, dequeued = Some example_batch\<rparr>,
      \<lparr>finished = 0, dequeued = Some example_batch\<rparr>,
      \<lparr>finished = 0, dequeued = Some example_batch\<rparr>,
      \<lparr>finished = 0, dequeued = Some example_batch\<rparr>,
      \<lparr>finished = 2, dequeued = Some example_batch\<rparr>,
      \<lparr>finished = 0, dequeued = None\<rparr>,
      \<lparr>finished = 0, dequeued = Some example_batch\<rparr>]"

definition example_stoul :: "string \<Rightarrow> nat option" where
  "example_stoul s = (if s = ''7'' then Some 7 else None)"

text \<open>A worker whose output tensor has \<open>2 ^ 30\<close> bytes, and a batch of one request with
  five inputs: the offset of the fifth tensor, \<open>4 * 2 ^ 30\<close>, does not fit 32 bits.\<close>

definition wrap_tensor :: Tensor where
  "wrap_tensor =
     \<lparr>tensor_name = ''t'', tensor_shape = [1, 2 ^ 30], tensor_data_type = ''XINT8''\<rparr>"

definition wrap_worker :: XModel where
  "wrap_worker =
     XModel_new\<lparr>kernel := ''DPUCZDX8G'',
       runner := Some \<lparr>input_tensors = [wrap_tensor], output_tensors = [wrap_tensor]\<rparr>,
       input_size := 2 ^ 30, output_size := 2 ^ 30, batch_size := 1, pool_threads := 1\<rparr>"

definition wrap_memory :: memory where
  "wrap_memory a = (if a = 2 then replicate (4 * 2 ^ 30) 0 @ replicate (2 ^ 30) 1 else [])"

definition wrap_batch :: Batch where
  "wrap_batch =
     \<lparr>requests =
        [\<lparr>request_id = ''a'',
          request_inputs = [\<lparr>input_name = ''x0''\<rparr>, \<lparr>input_name = ''x1''\<rparr>,
            \<lparr>input_name = ''x2''\<rparr>, \<lparr>input_name = ''x3''\<rparr>, \<lparr>input_name = ''x4''\<rparr>],
          request_outputs = [\<lparr>output_name = ''''\<rparr>, \<lparr>output_name = ''''\<rparr>,
            \<lparr>output_name = ''''\<rparr>, \<lparr>output_name = ''''\<rparr>, \<lparr>output_name = ''''\<rparr>],
          request_callback = 7\<rparr>],
      input_buffers = [[VartTensorBuffer \<lparr>tb_addr = 1, tb_tensor = wrap_tensor\<rparr>]],
      output_buffers = [[VartTensorBuffer \<lparr>tb_addr = 2, tb_tensor = wrap_tensor\<rparr>]]\<rparr>"

definition example_runtime :: Runtime where
  "example_runtime =
     \<lparr>getenv = (\<lambda>name. Some ''/opt''),
      autoExpandEnvironmentVariables = (\<lambda>path. path),
      deserialize = (\<lambda>path. Some \<lparr>children_topological_sort =
        [\<lparr>subgraph_name = ''subgraph_input'',
          subgraph_attrs = [(''device'', AttrString ''USER'')]\<rparr>,
         \<lparr>subgraph_name = ''subgraph_fc'',
          subgraph_attrs = [(''device'', AttrString ''CPU'')]\<rparr>]\<rparr>),
      target_type = (\<lambda>fingerprint. ''DPUCZDX8G''),
      create_runner = (\<lambda>sg. \<lparr>input_tensors = [example_tensor],
                               output_tensors = [example_tensor]\<rparr>),
      mapXirType = (\<lambda>t. UINT8)\<rparr>"

section \<open>The loops of the task\<close>

lemma bindE_Inr [simp]: "bindE (Inr x) f = f x"
  by (simp add: bindE_def)

lemma bindE_Inl [simp]: "bindE (Inl e) f = Inl e"
  by (simp add: bindE_def)

lemma bindE_eq_Inr: "bindE m f = Inr y \<longleftrightarrow> (\<exists>x. m = Inr x \<and> f x = Inr y)"
  by (cases m) simp_all

lemma foldE_append: "foldE f (xs @ ys) s = bindE (foldE f xs s) (foldE f ys)"
  by (induction xs arbitrary: s) (auto simp: bindE_def split: sum.splits)

lemma foldE_upt_states:
  assumes "\<And>i. i < n \<Longrightarrow> f i (st i) = Inr (st (Suc i))"
  shows "foldE f [0..<n] (st 0) = Inr (st n)"
  using assms
proof (induction n)
  case 0
  show ?case by simp
next
  case (Suc n)
  then have "foldE f [0..<n] (st 0) = Inr (st n)" by simp
  moreover have "f n (st n) = Inr (st (Suc n))" using Suc.prems by simp
  ultimately show ?case by (simp add: foldE_append)
qed

lemma mapE_Inr:
  assumes "\<And>x. x \<in> set xs \<Longrightarrow> f x = Inr (g x)"
  shows "mapE f xs = Inr (map g xs)"
  using assms by (induction xs) simp_all

lemma at_Inr [simp]: "i < length v \<Longrightarrow> at v i = Inr (v ! i)"
  by (simp add: at_def)

lemma unat_offset:
  fixes osz :: "32 word"
  shows "unat (word_of_nat n * osz) = (n * unat osz) mod 2 ^ 32"
proof -
  have "unat (word_of_nat n * osz) = (unat (word_of_nat n :: 32 word) * unat osz) mod 2 ^ 32"
    by (simp add: unat_word_ariths)
  also have "\<dots> = ((n mod 2 ^ 32) * unat osz) mod 2 ^ 32"
    by (simp add: unat_of_nat)
  also have "\<dots> = (n * unat osz) mod 2 ^ 32"
    by (simp add: mod_mult_left_eq)
  finally show ?thesis .
qed

lemma strip_leading: "map (\<lambda>j. xs ! (j + 1)) [0..<length xs - 1] = tl xs"
  by (rule nth_equalityI) (auto simp: nth_tl)

lemma strip_leading_Suc: "map (\<lambda>j. xs ! Suc j) [0..<length xs - Suc 0] = tl xs"
  using strip_leading [of xs] by simp

lemma getTensorBuffer_all:
  assumes "\<forall>x \<in> set bs. is_vart x"
  shows "mapE getTensorBuffer bs = Inr (tensor_buffers bs)"
  using assms
proof (induction bs)
  case Nil
  show ?case by (simp add: tensor_buffers_def)
next
  case (Cons x bs)
  then show ?case by (cases x) (simp_all add: tensor_buffers_def)
qed

lemma sync_size_defined: "sync_defined tb \<Longrightarrow> sync_size tb = Inr (sync_len tb)"
  by (cases "tensor_shape (tb_tensor tb)")
     (simp_all add: sync_defined_def sync_size_def sync_len_def at_def)

lemma sync_for_write_all:
  assumes "\<forall>tb \<in> set tbs. sync_defined tb"
  shows "mapE sync_for_write tbs = Inr (map write_sync tbs)"
  by (rule mapE_Inr) (simp add: assms sync_for_write_def write_sync_def sync_size_defined)

lemma sync_for_read_all:
  assumes "\<forall>tb \<in> set tbs. sync_defined tb"
  shows "mapE sync_for_read tbs = Inr (map read_sync tbs)"
  by (rule mapE_Inr) (simp add: assms sync_for_read_def read_sync_def sync_size_defined)

lemma runner_output_shapeD:
  assumes "runner_output_shape w \<noteq> []"
  obtains r t0 ts where "runner w = Some r" "output_tensors r = t0 # ts"
    "tensor_shape t0 = runner_output_shape w"
  using assms by (auto simp: runner_output_shape_def split: option.splits list.splits)

lemma submit_step:
  assumes ok: "batch_ok w mem b" and i: "i < length (input_buffers b)"
  shows "submit_body w b i (submit_state w b i) = Inr (submit_state w b (Suc i))"
proof -
  let ?bi = "input_buffers b ! i" and ?bo = "output_buffers b ! i"
  from ok i have io: "i < length (output_buffers b)" by (simp add: batch_ok_def)
  with i have iz: "i < length (zip (input_buffers b) (output_buffers b))" by simp
  then have mem: "(?bi, ?bo) \<in> set (zip (input_buffers b) (output_buffers b))"
    by (metis nth_mem nth_zip i io)
  with ok have vart: "\<forall>x \<in> set ?bi \<union> set ?bo. is_vart x"
    and sync: "kernel w \<noteq> ''DPUCADF8H'' \<Longrightarrow>
                \<forall>tb \<in> set (tensor_buffers ?bi) \<union> set (tensor_buffers ?bo). sync_defined tb"
    unfolding batch_ok_def by blast+
  have gi: "mapE getTensorBuffer ?bi = Inr (tensor_buffers ?bi)"
    and go: "mapE getTensorBuffer ?bo = Inr (tensor_buffers ?bo)"
    using vart by (simp_all add: getTensorBuffer_all)
  have sw: "kernel w \<noteq> ''DPUCADF8H'' \<Longrightarrow>
             mapE sync_for_write (tensor_buffers ?bi) = Inr (map write_sync (tensor_buffers ?bi))"
    using sync by (simp add: sync_for_write_all)
  have z: "take (Suc i) (zip (input_buffers b) (output_buffers b))
             = take i (zip (input_buffers b) (output_buffers b)) @ [(?bi, ?bo)]"
    using iz by (simp add: take_Suc_conv_app_nth)
  have t: "take (Suc i) (output_buffers b) = take i (output_buffers b) @ [?bo]"
    using io by (simp add: take_Suc_conv_app_nth)
  from ok have "runner_output_shape w \<noteq> []" by (simp add: batch_ok_def)
  then obtain r where r: "runner w = Some r"
    by (rule runner_output_shapeD)
  show ?thesis
    using i io gi go sw r
    by (simp add: submit_body_def submit_state_def z t job_events_def submission_def
          getRunner_def)
qed

lemma submit_loop:
  assumes ok: "batch_ok w mem b"
  shows "for_size_t (length (input_buffers b)) (submit_body w b) ([], [], [])
           = Inr (submit_state w b (length (input_buffers b)))"
proof -
  have "foldE (submit_body w b) [0..<length (input_buffers b)] (submit_state w b 0)
          = Inr (submit_state w b (length (input_buffers b)))"
    by (rule foldE_upt_states) (rule submit_step [OF ok])
  then show ?thesis by (simp add: for_size_t_def submit_state_def)
qed

lemma output_step:
  assumes s: "runner_output_shape w \<noteq> []"
    and i: "i < length (request_inputs req)"
    and o: "length (request_inputs req) \<le> length (request_outputs req)"
    and fit: "((base + i) * unat (output_size w)) mod 2 ^ 32 + unat (output_size w)
                \<le> length src"
    and count: "base + i < 2 ^ 31 - 1"
  shows "output_body w src (request_inputs req) (request_outputs req) i
           (output_state w src req base i) = Inr (output_state w src req base (Suc i))"
proof -
  from s obtain r t0 ts where r: "runner w = Some r" "output_tensors r = t0 # ts"
    "tensor_shape t0 = runner_output_shape w"
    by (rule runner_output_shapeD)
  have off: "unat (word_of_nat (base + i) * output_size w)
               = ((base + i) * unat (output_size w)) mod 2 ^ 32"
    by (rule unat_offset)
  from i o have io: "i < length (request_outputs req)" by simp
  show ?thesis
    using s i io count r fit
    by (simp add: output_body_def output_state_def getRunner_def off memcpy_from_def
          strip_leading_Suc built_output_def Let_def del: of_nat_add)
qed

lemma output_loop:
  assumes s: "runner_output_shape w \<noteq> []"
    and o: "length (request_inputs req) \<le> length (request_outputs req)"
    and fit: "\<And>i. i < length (request_inputs req) \<Longrightarrow>
                ((base + i) * unat (output_size w)) mod 2 ^ 32 + unat (output_size w)
                  \<le> length src"
    and count: "base + length (request_inputs req) < 2 ^ 31"
  shows "for_unsigned (length (request_inputs req))
           (output_body w src (request_inputs req) (request_outputs req))
           (base, initial_response req)
         = Inr (output_state w src req base (length (request_inputs req)))"
proof -
  let ?n = "length (request_inputs req)"
  have step: "output_body w src (request_inputs req) (request_outputs req) i
                (output_state w src req base i) = Inr (output_state w src req base (Suc i))"
    if i: "i < ?n" for i
  proof (rule output_step [OF s i o])
    show "((base + i) * unat (output_size w)) mod 2 ^ 32 + unat (output_size w) \<le> length src"
      using i by (rule fit)
    show "base + i < 2 ^ 31 - 1"
      using i count by simp
  qed
  have "foldE (output_body w src (request_inputs req) (request_outputs req)) [0..<?n]
          (output_state w src req base 0) = Inr (output_state w src req base ?n)"
    by (rule foldE_upt_states) (rule step)
  moreover have "?n < 2 ^ 32" using count by simp
  ultimately show ?thesis by (simp add: for_unsigned_def output_state_def initial_response_def)
qed

lemma tensors_before_Suc:
  "k < length (requests b) \<Longrightarrow>
     tensors_before b (Suc k) = tensors_before b k + length (request_inputs (requests b ! k))"
  by (simp add: tensors_before_def take_Suc_conv_app_nth)

lemma tensors_before_le: "tensors_before b k \<le> tensor_total b"
proof -
  have "tensor_total b = tensors_before b k
          + sum_list (map (\<lambda>r. length (request_inputs r)) (drop k (requests b)))"
    unfolding tensor_total_def tensors_before_def
    by (metis append_take_drop_id map_append sum_list_append)
  then show ?thesis by simp
qed

lemma tensors_before_all: "tensors_before b (length (requests b)) = tensor_total b"
  by (simp add: tensors_before_def tensor_total_def)

lemma respond_step:
  assumes ok: "batch_ok w mem b" and k: "k < length (requests b)"
  shows "respond_body w b (mem (first_output b)) k (respond_state w mem b tr k)
           = Inr (respond_state w mem b tr (Suc k))"
proof -
  let ?req = "requests b ! k"
  let ?n = "length (request_inputs ?req)"
  let ?osz = "unat (output_size w)"
  let ?src = "mem (first_output b)"
  have mem: "?req \<in> set (requests b)" using k by simp
  have next_le: "tensors_before b k + ?n \<le> tensor_total b"
    using tensors_before_le [of b "Suc k"] k by (simp add: tensors_before_Suc)
  from ok have s: "runner_output_shape w \<noteq> []"
    and o: "length (request_inputs ?req) \<le> length (request_outputs ?req)"
    and total: "tensor_total b < 2 ^ 31"
    and fit: "\<And>n. n < tensor_total b \<Longrightarrow> (n * ?osz) mod 2 ^ 32 + ?osz \<le> length ?src"
    using mem by (simp_all add: batch_ok_def)
  have inner: "for_unsigned ?n
                 (output_body w ?src (request_inputs ?req) (request_outputs ?req))
                 (tensors_before b k, initial_response ?req)
               = Inr (output_state w ?src ?req (tensors_before b k) ?n)"
  proof (rule output_loop [OF s o])
    show "((tensors_before b k + i) * ?osz) mod 2 ^ 32 + ?osz \<le> length ?src"
      if "i < ?n" for i
    proof (rule fit)
      from that have "tensors_before b k + i < tensors_before b k + ?n" by simp
      then show "tensors_before b k + i < tensor_total b"
        using next_le by (rule less_le_trans)
    qed
    show "tensors_before b k + ?n < 2 ^ 31"
      using next_le total by (rule le_less_trans)
  qed
  have built: "output_state w ?src ?req (tensors_before b k) ?n
                 = (tensors_before b (Suc k), built_response w mem b k)"
    using k by (simp add: output_state_def built_response_def tensors_before_Suc)
  have upd: "(map (\<lambda>j. if j < k then built_response w mem b j
                       else initial_response (requests b ! j))
                [0..<length (requests b)]) [k := built_response w mem b k]
             = map (\<lambda>j. if j < Suc k then built_response w mem b j
                         else initial_response (requests b ! j)) [0..<length (requests b)]"
    by (rule nth_equalityI) (auto simp: nth_list_update less_Suc_eq)
  show ?thesis
    using k by (simp add: respond_body_def respond_state_def inner built upd)
qed

lemma respond_loop:
  assumes ok: "batch_ok w mem b"
  shows "for_unsigned (length (requests b)) (respond_body w b (mem (first_output b)))
           (0, map initial_response (requests b), tr)
         = Inr (respond_state w mem b tr (length (requests b)))"
proof -
  have "foldE (respond_body w b (mem (first_output b))) [0..<length (requests b)]
          (respond_state w mem b tr 0) = Inr (respond_state w mem b tr (length (requests b)))"
    by (rule foldE_upt_states) (rule respond_step [OF ok])
  moreover have "map (\<lambda>j. initial_response (requests b ! j)) [0..<length (requests b)]
                   = map initial_response (requests b)"
    by (rule nth_equalityI) simp_all
  then have "respond_state w mem b tr 0 = (0, map initial_response (requests b), tr)"
    by (simp add: respond_state_def tensors_before_def)
  moreover from ok have "length (requests b) < 2 ^ 32" by (simp add: batch_ok_def)
  ultimately show ?thesis by (simp add: for_unsigned_def)
qed

lemma submitted_outputs_sync:
  assumes ok: "batch_ok w mem b" and kern: "kernel w \<noteq> ''DPUCADF8H''"
    and tb: "tb \<in> set (submitted_outputs b)"
  shows "sync_defined tb"
proof -
  from tb obtain bo where bo: "bo \<in> set (take (length (input_buffers b)) (output_buffers b))"
    and tbo: "tb \<in> set (tensor_buffers bo)"
    by (auto simp: submitted_outputs_def)
  from bo obtain i where i: "i < length (input_buffers b)" "i < length (output_buffers b)"
    and boi: "bo = output_buffers b ! i"
    by (auto simp: in_set_conv_nth)
  then have "(input_buffers b ! i, bo) \<in> set (zip (input_buffers b) (output_buffers b))"
    by (auto simp: set_zip)
  with ok kern tbo show ?thesis
    unfolding batch_ok_def by blast
qed

text \<open>A well-formed batch is processed to the end, with the events of \<open>task_trace\<close>.\<close>

lemma doRun_task_trace:
  assumes ok: "batch_ok w mem b"
  shows "doRun_task w mem b = Inr (task_trace w mem b)"
proof -
  let ?n = "length (input_buffers b)"
  from ok have len: "?n \<le> length (output_buffers b)"
    and ne: "output_buffers b \<noteq> []" "hd (output_buffers b) \<noteq> []"
    by (simp_all add: batch_ok_def)
  have sub: "for_size_t ?n (submit_body w b) ([], [], [])
               = Inr ([0..<?n], submitted_outputs b,
                      concat (map (job_events w) (zip (input_buffers b) (output_buffers b))))"
    using len by (simp add: submit_loop [OF ok] submit_state_def submitted_outputs_def)
  have rd: "kernel w \<noteq> ''DPUCADF8H'' \<Longrightarrow>
              mapE sync_for_read (submitted_outputs b) = Inr (map read_sync (submitted_outputs b))"
    by (rule sync_for_read_all) (simp add: submitted_outputs_sync [OF ok])
  have a0: "at (output_buffers b) 0 = Inr (hd (output_buffers b))"
    using ne by (simp add: hd_conv_nth)
  have a00: "at (hd (output_buffers b)) 0 = Inr (hd (hd (output_buffers b)))"
    using ne by (simp add: hd_conv_nth)
  show ?thesis
    using rd
    by (simp add: doRun_task_def sub a0 a00 Let_def first_output_def [symmetric]
          respond_loop [OF ok] respond_state_def task_trace_def callback_events_def)
qed

section \<open>What the trace of a well-formed batch shows\<close>

lemma callbacks_fired_append [simp]:
  "callbacks_fired (xs @ ys) = callbacks_fired xs @ callbacks_fired ys"
  by (simp add: callbacks_fired_def)

lemma callbacks_fired_none:
  assumes "\<And>e. e \<in> set tr \<Longrightarrow> callback_of e = []"
  shows "callbacks_fired tr = []"
  using assms by (induction tr) (simp_all add: callbacks_fired_def)

lemma callbacks_fired_jobs: "callbacks_fired (concat (map (job_events w) ps)) = []"
  by (rule callbacks_fired_none)
     (auto simp: job_events_def write_sync_def submission_def split: if_splits)

lemma callbacks_fired_waits: "callbacks_fired (map Wait js) = []"
  by (rule callbacks_fired_none) auto

lemma callbacks_fired_read_syncs: "callbacks_fired (map read_sync tbs) = []"
  by (rule callbacks_fired_none) (auto simp: read_sync_def)

lemma callbacks_fired_callbacks:
  "callbacks_fired (map (\<lambda>k. Callback (c k) (r k)) ks) = map (\<lambda>k. (c k, r k)) ks"
  by (induction ks) (simp_all add: callbacks_fired_def)

lemma callbacks_fired_task:
  "callbacks_fired (task_trace w mem b)
     = map (\<lambda>k. (request_callback (requests b ! k), built_response w mem b k))
         [0..<length (requests b)]"
  by (simp add: task_trace_def callback_events_def callbacks_fired_jobs callbacks_fired_waits
        callbacks_fired_read_syncs callbacks_fired_callbacks)
     (simp add: callbacks_fired_def)

lemma map_nth_upt: "map (\<lambda>k. f (xs ! k)) [0..<length xs] = map f xs"
  by (rule nth_equalityI) simp_all

lemma emitted_outputs_task:
  "emitted_outputs (task_trace w mem b)
     = concat (map (\<lambda>k. response_outputs (built_response w mem b k)) [0..<length (requests b)])"
  by (simp add: emitted_outputs_def callbacks_fired_task comp_def)

lemma built_outputs_upto:
  assumes "n \<le> length (requests b)"
  shows "concat (map (\<lambda>k. map (\<lambda>i. f (tensors_before b k + i))
                           [0..<length (request_inputs (requests b ! k))]) [0..<n])
           = map f [0..<tensors_before b n]"
  using assms
proof (induction n)
  case 0
  show ?case by (simp add: tensors_before_def)
next
  case (Suc n)
  let ?a = "tensors_before b n" and ?m = "length (request_inputs (requests b ! n))"
  have "map (\<lambda>i. f (?a + i)) [0..<?m] = map f (map (\<lambda>i. i + ?a) [0..<?m])"
    by (simp add: add.commute)
  also have "\<dots> = map f [?a..<?a + ?m]"
    by (simp only: map_add_upt add.commute)
  finally have seg: "map (\<lambda>i. f (?a + i)) [0..<?m] = map f [?a..<?a + ?m]" .
  have split: "map f [0..<?a + ?m] = map f [0..<?a] @ map f [?a..<?a + ?m]"
    by (simp only: upt_add_eq_append [OF le0] map_append)
  from Suc have n: "n < length (requests b)"
    and IH: "concat (map (\<lambda>k. map (\<lambda>i. f (tensors_before b k + i))
                              [0..<length (request_inputs (requests b ! k))]) [0..<n])
               = map f [0..<tensors_before b n]"
    by simp_all
  show ?case
    by (simp only: upt_Suc_append [OF le0] map_append concat_append IH seg split
          tensors_before_Suc [OF n] list.map concat.simps append_Nil2)
qed

lemma emitted_data_task:
  "map out_data (emitted_outputs (task_trace w mem b))
     = map (\<lambda>n. take (unat (output_size w))
                  (drop ((n * unat (output_size w)) mod 2 ^ 32) (mem (first_output b))))
         [0..<tensor_total b]"
proof -
  let ?f = "\<lambda>n. take (unat (output_size w))
                  (drop ((n * unat (output_size w)) mod 2 ^ 32) (mem (first_output b)))"
  have "map out_data (emitted_outputs (task_trace w mem b))
          = concat (map (\<lambda>k. map (\<lambda>i. ?f (tensors_before b k + i))
                               [0..<length (request_inputs (requests b ! k))])
                      [0..<length (requests b)])"
    by (simp add: emitted_outputs_task map_concat built_response_def built_output_def comp_def)
  also have "\<dots> = map ?f [0..<tensors_before b (length (requests b))]"
    by (rule built_outputs_upto) simp
  finally show ?thesis by (simp add: tensors_before_all)
qed

lemma emitted_outputs_built:
  assumes "out \<in> set (emitted_outputs (task_trace w mem b))"
  shows "out_shape out = tl (runner_output_shape w)"
  using assms by (auto simp: emitted_outputs_task built_response_def built_output_def)

lemma filter_sync_none:
  assumes "\<And>e. e \<in> set tr \<Longrightarrow> \<not> is_sync e"
  shows "filter is_sync tr = []"
  using assms by (induction tr) simp_all

lemma callback_events_no_sync: "filter is_sync (callback_events w mem b) = []"
  by (rule filter_sync_none) (auto simp: callback_events_def)

lemma batch_ok_same_first_output:
  assumes "batch_ok w mem b" and "mem' (first_output b) = mem (first_output b)"
  shows "batch_ok w mem' b"
  using assms by (simp add: batch_ok_def)

lemma task_trace_same_first_output:
  assumes "mem' (first_output b) = mem (first_output b)"
  shows "task_trace w mem' b = task_trace w mem b"
  using assms by (simp add: task_trace_def callback_events_def built_response_def)

lemma example_batch_ok: "batch_ok example_worker example_memory example_batch"
  by (simp add: batch_ok_def example_worker_def example_batch_def example_memory_def
        example_tensor_def XModel_new_def runner_output_shape_def tensor_total_def
        first_output_def tensor_buffers_def sync_defined_def)

lemma example_requests:
  "length (requests example_batch) = 2"
  "map request_callback (requests example_batch) = [7, 8]"
  "map request_id (requests example_batch) = [''a'', ''b'']"
  by (simp_all add: example_batch_def)

lemma example_shape: "runner_output_shape example_worker = [2, 3]"
  by (simp add: runner_output_shape_def example_worker_def example_tensor_def XModel_new_def)

lemma example_total: "tensor_total example_batch = 2"
  by (simp add: tensor_total_def example_batch_def)

lemma example_first_output:
  "first_output example_batch = 2" "example_memory 2 = [11, 12, 13, 14, 15, 16]"
  by (simp_all add: first_output_def example_batch_def example_memory_def)

lemma upt_2: "[0..<2] = [0, 1]"
  by (simp add: upt_rec numeral_2_eq_2)

lemma example_regions:
  "map (\<lambda>n. take (unat (output_size example_worker))
              (drop ((n * unat (output_size example_worker)) mod 2 ^ 32)
                 [11, 12, 13, 14, 15, 16]))
       [0..<tensor_total example_batch]
     = [[11, 12, 13], [14, 15, 16]]"
  by (simp add: example_total upt_2) (simp add: example_worker_def XModel_new_def)

lemma example_output_size: "unat (output_size example_worker) = 3"
  by (simp add: example_worker_def XModel_new_def)

lemma wrap_output_size: "unat (output_size wrap_worker) = 2 ^ 30"
  by (simp add: wrap_worker_def XModel_new_def)

lemma wrap_total: "tensor_total wrap_batch = 5"
  by (simp add: tensor_total_def wrap_batch_def)

lemma wrap_first_output:
  "wrap_memory (first_output wrap_batch) = replicate (4 * 2 ^ 30) 0 @ replicate (2 ^ 30) 1"
  by (simp add: first_output_def wrap_batch_def wrap_memory_def)

lemma wrap_batch_ok: "batch_ok wrap_worker wrap_memory wrap_batch"
proof -
  have "(n * 2 ^ 30) mod 2 ^ 32 + 2 ^ 30 \<le> (5 * 2 ^ 30 :: nat)" for n :: nat
  proof -
    have "(n * 2 ^ 30) mod 2 ^ 32 = (n mod 4) * 2 ^ 30"
      using mult_mod_left [of n 4 "2 ^ 30"] by simp
    moreover have "n mod 4 \<le> 3" by simp
    ultimately show ?thesis by simp
  qed
  then have fit: "\<forall>n < tensor_total wrap_batch.
      (n * unat (output_size wrap_worker)) mod 2 ^ 32 + unat (output_size wrap_worker)
        \<le> length (wrap_memory (first_output wrap_batch))"
    by (simp add: wrap_output_size wrap_first_output)
  have main: "length (input_buffers wrap_batch) \<le> length (output_buffers wrap_batch) \<and>
     (\<forall>(bi, bo) \<in> set (zip (input_buffers wrap_batch) (output_buffers wrap_batch)).
        (\<forall>x \<in> set bi \<union> set bo. is_vart x) \<and>
        (kernel wrap_worker \<noteq> ''DPUCADF8H'' \<longrightarrow>
           (\<forall>tb \<in> set (tensor_buffers bi) \<union> set (tensor_buffers bo). sync_defined tb))) \<and>
     output_buffers wrap_batch \<noteq> [] \<and> hd (output_buffers wrap_batch) \<noteq> [] \<and>
     runner_output_shape wrap_worker \<noteq> [] \<and>
     length (requests wrap_batch) < 2 ^ 32 \<and>
     (\<forall>r \<in> set (requests wrap_batch).
        length (request_inputs r) \<le> length (request_outputs r)) \<and>
     tensor_total wrap_batch < 2 ^ 31"
    by (simp add: wrap_worker_def wrap_batch_def wrap_tensor_def XModel_new_def
          runner_output_shape_def tensor_total_def tensor_buffers_def sync_defined_def)
  from main fit show ?thesis by (simp add: batch_ok_def)
qed

lemma wrap_emitted_length:
  "length (emitted_outputs (task_trace wrap_worker wrap_memory wrap_batch)) = 5"
  using arg_cong [OF emitted_data_task [of wrap_worker wrap_memory wrap_batch], of length]
  by (simp add: wrap_total)

lemma nth_map_upt_4: "map f [0..<5] ! 4 = f 4"
  using nth_map_upt [of 4 5 0 f] by simp

lemma wrap_offset: "(4 * 2 ^ 30) mod 2 ^ 32 = (0 :: nat)"
  by simp

lemma wrap_low_region:
  "take (2 ^ 30) (replicate (4 * 2 ^ 30) (0 :: byte) @ replicate (2 ^ 30) 1)
     = replicate (2 ^ 30) 0"
  by (simp add: min_def)

lemma wrap_high_region:
  "take (2 ^ 30) (drop (4 * 2 ^ 30) (replicate (4 * 2 ^ 30) (0 :: byte) @ replicate (2 ^ 30) 1))
     = replicate (2 ^ 30) 1"
  by simp

lemma wrap_regions_differ: "replicate (2 ^ 30) (0 :: byte) \<noteq> replicate (2 ^ 30) 1"
  by (simp add: replicate_eq_replicate)

lemma wrap_fifth_output:
  "out_data (emitted_outputs (task_trace wrap_worker wrap_memory wrap_batch) ! 4)
     = replicate (2 ^ 30) 0"
proof -
  have "out_data (emitted_outputs (task_trace wrap_worker wrap_memory wrap_batch) ! 4)
          = map out_data (emitted_outputs (task_trace wrap_worker wrap_memory wrap_batch)) ! 4"
    by (simp add: wrap_emitted_length)
  also have "\<dots> = take (unat (output_size wrap_worker))
                     (drop ((4 * unat (output_size wrap_worker)) mod 2 ^ 32)
                        (wrap_memory (first_output wrap_batch)))"
    by (simp only: emitted_data_task wrap_total) (simp only: nth_map_upt_4)
  also have "\<dots> = replicate (2 ^ 30) 0"
    by (simp only: wrap_output_size wrap_offset drop_0 wrap_first_output wrap_low_region)
  finally show ?thesis .
qed

lemma wrap_claimed_region:
  "take (unat (output_size wrap_worker))
     (drop (4 * unat (output_size wrap_worker)) (wrap_memory (first_output wrap_batch)))
     = replicate (2 ^ 30) 1"
  by (simp only: wrap_output_size wrap_first_output wrap_high_region)

lemma example_kernel: "(kernel example_worker = ''DPUCADF8H'') = False"
  by (simp add: example_worker_def XModel_new_def)

lemma example_sync_events:
  "concat (map (\<lambda>p. map write_sync (tensor_buffers (fst p)) @ [submission p])
             (zip (input_buffers example_batch) (output_buffers example_batch)))
   @ map Wait [0..<length (input_buffers example_batch)]
   @ map read_sync (submitted_outputs example_batch) @ rest
     = [SyncForWrite 1 0 3, ExecuteAsync [1] [2], Wait 0, SyncForRead 2 0 3] @ rest"
  by (simp add: example_batch_def tensor_buffers_def write_sync_def read_sync_def
        submission_def submitted_outputs_def sync_len_def get_element_num_def
        example_tensor_def)

section \<open>The consumer loop\<close>

lemma doRun_loop_trace:
  "doRun_loop m c as
     = concat (map (dispatch m) (zip (compared c as) (accepted as)))
       @ (if shut_down as then [Ending] else [])"
proof (induction as arbitrary: c)
  case Nil
  show ?case by (simp add: shut_down_def)
next
  case (Cons a as)
  show ?case
  proof (cases "dequeued a")
    case None
    then show ?thesis by (simp add: shut_down_def)
  next
    case (Some batch)
    then show ?thesis
      using Cons [of "c - word_of_nat (finished a) + 1"]
      by (simp add: shut_down_def dispatch_def Let_def)
  qed
qed

lemma doRun_loop_pushed: "concat (map pushed (doRun_loop m c as)) = accepted as"
  by (induction as arbitrary: c) (simp_all add: Let_def split: option.splits)

lemma length_compared: "length (compared c as) = length (accepted as)"
  by (induction as arbitrary: c) (simp_all split: option.splits)

section \<open>The allocation loops\<close>

lemma allocated_sets_Suc:
  "allocated_sets ts a (Suc n) = allocated_sets ts a n @ [new_buffers ts (a + n * length ts)]"
  by (simp add: allocated_sets_def)

lemma length_new_buffers [simp]: "length (new_buffers ts a) = length ts"
  by (simp add: new_buffers_def)

lemma allocate_input_loop:
  assumes r: "runner w = Some r"
  shows "for_size_t n allocate_input_set w
           = Inr (w\<lparr>input_buffers_queue :=
                      input_buffers_queue w @ allocated_sets (input_tensors r) (next_addr w) n,
                    next_addr := next_addr w + n * length (input_tensors r)\<rparr>)"
proof -
  let ?st = "\<lambda>i. w\<lparr>input_buffers_queue :=
                      input_buffers_queue w @ allocated_sets (input_tensors r) (next_addr w) i,
                    next_addr := next_addr w + i * length (input_tensors r)\<rparr>"
  have "foldE allocate_input_set [0..<n] (?st 0) = Inr (?st n)"
    by (rule foldE_upt_states)
       (simp add: allocate_input_set_def getRunner_def r allocated_sets_Suc Let_def)
  then show ?thesis
    by (simp add: for_size_t_def allocated_sets_def)
qed

lemma allocate_output_loop:
  assumes r: "runner w = Some r"
  shows "for_size_t n allocate_output_set w
           = Inr (w\<lparr>output_buffers_queue :=
                      output_buffers_queue w @ allocated_sets (output_tensors r) (next_addr w) n,
                    next_addr := next_addr w + n * length (output_tensors r)\<rparr>)"
proof -
  let ?st = "\<lambda>i. w\<lparr>output_buffers_queue :=
                      output_buffers_queue w @ allocated_sets (output_tensors r) (next_addr w) i,
                    next_addr := next_addr w + i * length (output_tensors r)\<rparr>"
  have "foldE allocate_output_set [0..<n] (?st 0) = Inr (?st n)"
    by (rule foldE_upt_states)
       (simp add: allocate_output_set_def getRunner_def r allocated_sets_Suc Let_def)
  then show ?thesis
    by (simp add: for_size_t_def allocated_sets_def)
qed

text \<open>What \<open>doAllocate\<close> returns for a worker whose runner is set.\<close>

lemma doAllocate_result:
  assumes r: "runner w = Some r"
  shows "doAllocate k num w =
           (let n = (if requests_auto k num then 10 else num) in
            Inr (w\<lparr>input_buffers_queue :=
                     input_buffers_queue w
                     @ allocated_sets (input_tensors r) (next_addr w) (unat n),
                   output_buffers_queue :=
                     output_buffers_queue w
                     @ allocated_sets (output_tensors r)
                         (next_addr w + unat n * length (input_tensors r)) (unat n),
                   next_addr := next_addr w + unat n * length (input_tensors r)
                                + unat n * length (output_tensors r)\<rparr>, n))"
  by (simp add: doAllocate_def Let_def allocate_input_loop [OF r] allocate_output_loop r)

section \<open>The drain loop\<close>

lemma FinishQuery_indexes_empty_vector:
  assumes "moved \<noteq> []"
  shows "FinishQuery stoul (moved # rest) evs = Inl UndefinedBehaviour"
proof -
  let ?n = "length (take 16 moved)"
  from assms have pos: "0 < ?n" by simp
  have small: "?n < 2 ^ 32"
    by (rule le_less_trans [of _ 16]) simp_all
  from pos have "[0..<?n] = 0 # [Suc 0..<?n]"
    by (rule upt_conv_Cons)
  then have "for_unsigned ?n
               (\<lambda>i evs. bindE (at ([] :: Response list) i)
                           (\<lambda>response. finish_one stoul response evs)) evs
             = Inl UndefinedBehaviour"
    using small by (simp add: for_unsigned_def at_def)
  then show ?thesis by (simp add: Let_def)
qed

section \<open>What initialisation establishes\<close>

lemma size_without_batch_Inr:
  assumes "size_without_batch shape = Inr p"
  shows "shape \<noteq> []"
  using assms by (auto simp: size_without_batch_def)

text \<open>A worker that \<open>doInit\<close> has set up has a runner with an input and an output tensor,
  both of non-empty shape.\<close>

lemma doInit_runner:
  assumes "doInit rt parameters w0 = Inr w"
  shows "\<exists>r. runner w = Some r \<and> input_tensors r \<noteq> [] \<and> output_tensors r \<noteq> []"
    and "runner_output_shape w \<noteq> []"
proof -
  from assms obtain r in0 out0 p q where
    r: "runner w = Some r"
    and i: "at (input_tensors r) 0 = Inr in0"
    and o: "at (output_tensors r) 0 = Inr out0"
    and so: "size_without_batch (tensor_shape out0) = Inr q"
    by (auto simp: doInit_def bindE_eq_Inr Let_def split: option.splits)
  from i have ine: "input_tensors r \<noteq> []"
    by (auto simp: at_def split: if_splits)
  from o have one: "output_tensors r \<noteq> []" and out0: "out0 = hd (output_tensors r)"
    by (auto simp: at_def hd_conv_nth split: if_splits)
  from r ine one show "\<exists>r. runner w = Some r \<and> input_tensors r \<noteq> [] \<and> output_tensors r \<noteq> []"
    by blast
  from size_without_batch_Inr [OF so] r one out0 show "runner_output_shape w \<noteq> []"
    by (cases "output_tensors r") (simp_all add: runner_output_shape_def)
qed

section \<open>The end of every task, and the pool\<close>

lemma foldE_invariant:
  assumes step: "\<And>i s s'. P s \<Longrightarrow> f i s = Inr s' \<Longrightarrow> P s'"
    and "P s" and "foldE f is s = Inr s'"
  shows "P s'"
  using assms(2,3)
proof (induction "is" arbitrary: s)
  case Nil
  then show ?case by simp
next
  case (Cons i "is")
  from Cons.prems(2) obtain s1 where s1: "f i s = Inr s1" and rest: "foldE f is s1 = Inr s'"
    by (auto simp: bindE_eq_Inr)
  from step [OF Cons.prems(1) s1] rest show ?case
    by (rule Cons.IH)
qed

lemma for_unsigned_Inr:
  assumes "for_unsigned n f s = Inr s'"
  shows "foldE f [0..<n] s = Inr s'"
  using assms by (auto simp: for_unsigned_def bindE_eq_Inr split: if_splits)

lemma mapE_elements:
  assumes "mapE f xs = Inr ys" and "y \<in> set ys"
  shows "\<exists>x \<in> set xs. f x = Inr y"
  using assms
proof (induction xs arbitrary: ys)
  case Nil
  then show ?case by simp
next
  case (Cons x xs)
  from Cons.prems(1) obtain z zs where z: "f x = Inr z" and zs: "mapE f xs = Inr zs"
    and ys: "ys = z # zs"
    by (auto simp: bindE_eq_Inr)
  with Cons.prems(2) Cons.IH [OF zs] show ?case by auto
qed

lemma sync_for_write_no_return:
  assumes "mapE sync_for_write tbs = Inr evs"
  shows "filter is_return evs = []"
proof -
  have "\<not> is_return e" if "e \<in> set evs" for e
    using mapE_elements [OF assms that]
    by (auto simp: sync_for_write_def bindE_eq_Inr)
  then show ?thesis by (simp add: filter_empty_conv)
qed

lemma sync_for_read_no_return:
  assumes "mapE sync_for_read tbs = Inr evs"
  shows "filter is_return evs = []"
proof -
  have "\<not> is_return e" if "e \<in> set evs" for e
    using mapE_elements [OF assms that]
    by (auto simp: sync_for_read_def bindE_eq_Inr)
  then show ?thesis by (simp add: filter_empty_conv)
qed

lemma submit_body_no_return:
  assumes "filter is_return (snd (snd st)) = []" and "submit_body w b i st = Inr st'"
  shows "filter is_return (snd (snd st')) = []"
  using assms
  by (cases st)
     (auto simp: submit_body_def bindE_eq_Inr sync_for_write_no_return split: if_splits)

lemma respond_body_no_return:
  assumes "filter is_return (snd (snd st)) = []" and "respond_body w b src k st = Inr st'"
  shows "filter is_return (snd (snd st')) = []"
  using assms
  by (cases st) (auto simp: respond_body_def bindE_eq_Inr Let_def)

text \<open>Whatever the batch, a task that reaches its end has returned the buffer sets of the
  batch exactly once, as the last thing but the decrement of the counter.\<close>

lemma doRun_task_returns_last:
  assumes "doRun_task w mem b = Inr tr"
  shows "\<exists>pre. tr = pre @ [ReturnBuffers (input_buffers b) (output_buffers b),
                           PoolSizeDecrement]
               \<and> filter is_return pre = []"
proof -
  from assms obtain futures outs tr1 syncs buf00 tc resps tr3 where
    sub: "for_size_t (length (input_buffers b)) (submit_body w b) ([], [], [])
            = Inr (futures, outs, tr1)"
    and syncs: "(if kernel w \<noteq> ''DPUCADF8H'' then mapE sync_for_read outs else Inr [])
                  = Inr syncs"
    and resp: "for_unsigned (length (requests b)) (respond_body w b (mem (data buf00)))
                 (0, map initial_response (requests b), tr1 @ map Wait futures @ syncs)
               = Inr (tc, resps, tr3)"
    and tr: "tr = tr3 @ [ReturnBuffers (input_buffers b) (output_buffers b),
                         PoolSizeDecrement]"
    by (auto simp: doRun_task_def bindE_eq_Inr Let_def)
  have "filter is_return (snd (snd (futures, outs, tr1))) = []"
    by (rule foldE_invariant [where f = "submit_body w b" and s = "([], [], [])"
          and P = "\<lambda>st. filter is_return (snd (snd st)) = []"])
       (use sub in \<open>simp_all add: submit_body_no_return for_size_t_def\<close>)
  then have tr1: "filter is_return tr1 = []" by simp
  have sy: "filter is_return syncs = []"
    using syncs by (auto simp: sync_for_read_no_return split: if_splits)
  have "filter is_return (snd (snd (tc, resps, tr3))) = []"
  proof (rule foldE_invariant [where f = "respond_body w b (mem (data buf00))"
          and P = "\<lambda>st. filter is_return (snd (snd st)) = []"])
    show "foldE (respond_body w b (mem (data buf00))) [0..<length (requests b)]
            (0, map initial_response (requests b), tr1 @ map Wait futures @ syncs)
          = Inr (tc, resps, tr3)"
      using resp by (rule for_unsigned_Inr)
    show "filter is_return
            (snd (snd (0, map initial_response (requests b), tr1 @ map Wait futures @ syncs)))
          = []"
      using tr1 sy by (simp add: filter_empty_conv)
  qed (rule respond_body_no_return)
  with tr show ?thesis by simp
qed

lemma fold_pool_event_no_return:
  assumes "filter is_return tr = []"
  shows "fold pool_event tr s = s"
  using assms
proof (induction tr arbitrary: s)
  case Nil
  show ?case by simp
next
  case (Cons e tr)
  then show ?case by (cases e) (simp_all split: if_splits)
qed

lemma fold_pool_event_task:
  assumes "doRun_task w mem b = Inr tr"
  shows "fold pool_event tr s = returnBuffers (input_buffers b) (output_buffers b) s"
proof -
  from doRun_task_returns_last [OF assms] obtain pre where
    "tr = pre @ [ReturnBuffers (input_buffers b) (output_buffers b), PoolSizeDecrement]"
    "filter is_return pre = []"
    by blast
  then show ?thesis by (simp add: fold_pool_event_no_return)
qed

lemma mset_without_nth:
  assumes "i < length xs"
  shows "mset (concat (map f (take i xs @ drop (Suc i) xs))) + mset (f (xs ! i))
           = mset (concat (map f xs))"
proof -
  have "xs = take i xs @ xs ! i # drop (Suc i) xs"
    using assms by (rule id_take_nth_drop)
  then have "mset (concat (map f xs))
               = mset (concat (map f (take i xs @ xs ! i # drop (Suc i) xs)))"
    by simp
  then show ?thesis by simp
qed

lemma run_step_conserves:
  assumes "run_step w s s'"
  shows "mset (queued_inputs s') + mset (checked_out_inputs s')
           = mset (queued_inputs s) + mset (checked_out_inputs s)
         \<and> mset (queued_outputs s') + mset (checked_out_outputs s')
           = mset (queued_outputs s) + mset (checked_out_outputs s)"
  using assms
proof cases
  case (step_checkout m n reqs)
  have hi: "mset (drop m (queued_inputs s)) + mset (take m (queued_inputs s))
          = mset (queued_inputs s)"
    by (metis append_take_drop_id mset_append add.commute)
  have ho: "mset (drop n (queued_outputs s)) + mset (take n (queued_outputs s))
          = mset (queued_outputs s)"
    by (metis append_take_drop_id mset_append add.commute)
  show ?thesis
    unfolding step_checkout
    by (simp add: checkout_def checked_out_inputs_def checked_out_outputs_def
          hi [symmetric] ho [symmetric] ac_simps)
next
  case (step_task i mem tr)
  let ?b = "in_flight s ! i"
  have hi: "mset (concat (map input_buffers
                    (take i (in_flight s) @ drop (Suc i) (in_flight s))))
          + mset (input_buffers ?b) = mset (concat (map input_buffers (in_flight s)))"
    using step_task(2) by (rule mset_without_nth)
  have ho: "mset (concat (map output_buffers
                    (take i (in_flight s) @ drop (Suc i) (in_flight s))))
          + mset (output_buffers ?b) = mset (concat (map output_buffers (in_flight s)))"
    using step_task(2) by (rule mset_without_nth)
  show ?thesis
    unfolding step_task(1) fold_pool_event_task [OF step_task(3)]
    by (simp add: returnBuffers_def checked_out_inputs_def checked_out_outputs_def
          hi [symmetric] ho [symmetric] ac_simps)
qed

lemma reachable_conserves:
  assumes "reachable w s0 s"
  shows "mset (queued_inputs s) + mset (checked_out_inputs s)
           = mset (queued_inputs s0) + mset (checked_out_inputs s0)
         \<and> mset (queued_outputs s) + mset (checked_out_outputs s)
           = mset (queued_outputs s0) + mset (checked_out_outputs s0)"
  using assms
proof induction
  case reach_start
  show ?case by simp
next
  case (reach_step s' s'')
  from run_step_conserves [OF reach_step(2)] reach_step(3) show ?case by simp
qed

lemma new_buffers_inj:
  assumes "ts \<noteq> []" and "new_buffers ts a = new_buffers ts a'"
  shows "a = a'"
proof -
  from assms(1) obtain t ts' where "ts = t # ts'" by (cases ts) auto
  with assms(2) show ?thesis by (simp add: new_buffers_def enumerate_eq_zip upt_rec)
qed

lemma distinct_allocated_sets:
  assumes "ts \<noteq> []"
  shows "distinct (allocated_sets ts a n)"
proof -
  have "inj_on (\<lambda>j. new_buffers ts (a + j * length ts)) (set [0..<n])"
  proof (rule inj_onI)
    fix i j
    assume "new_buffers ts (a + i * length ts) = new_buffers ts (a + j * length ts)"
    then have "a + i * length ts = a + j * length ts"
      by (rule new_buffers_inj [OF assms])
    with assms show "i = j" by simp
  qed
  then show ?thesis by (simp add: allocated_sets_def distinct_map)
qed

section \<open>The claims about the processing of a batch\<close>

text \<open>
  Claim C1.  For a well-formed batch the task runs to its end and fires one callback per
  request: there are as many callback invocations as requests, the \<open>k\<close>-th invocation is
  the callback of the \<open>k\<close>-th request of the batch, and it receives the response that
  carries that request's identifier.\<close>

theorem callbacks_once_in_order:
  assumes "batch_ok w mem b"
  shows "\<exists>tr. doRun_task w mem b = Inr tr \<and>
           length (callbacks_fired tr) = length (requests b) \<and>
           map fst (callbacks_fired tr) = map request_callback (requests b) \<and>
           map (\<lambda>p. response_id (snd p)) (callbacks_fired tr) = map request_id (requests b)"
proof -
  have "map (\<lambda>k. request_callback (requests b ! k)) [0..<length (requests b)]
          = map request_callback (requests b)"
    by (rule map_nth_upt)
  moreover have "map (\<lambda>k. request_id (requests b ! k)) [0..<length (requests b)]
                   = map request_id (requests b)"
    by (rule map_nth_upt)
  ultimately show ?thesis
    by (simp add: doRun_task_trace [OF assms] callbacks_fired_task comp_def built_response_def)
qed

theorem callbacks_once_in_order_witness:
  "batch_ok example_worker example_memory example_batch \<and>
   (\<exists>tr. doRun_task example_worker example_memory example_batch = Inr tr \<and>
      length (callbacks_fired tr) = 2 \<and>
      map fst (callbacks_fired tr) = [7, 8] \<and>
      map (\<lambda>p. response_id (snd p)) (callbacks_fired tr) = [''a'', ''b''])"
  using callbacks_once_in_order [OF example_batch_ok] example_batch_ok
  by (simp only: example_requests simp_thms)

text \<open>
  Claim C5.  For a well-formed batch every output tensor added to a response (there is one
  per input tensor of the batch) has the shape that the runtime reports for its output
  tensor, without the leading dimension: one dimension less, and element \<open>j\<close> of the
  response shape is element \<open>j + 1\<close> of the runtime's.\<close>

theorem response_shape_strips_batch_dimension:
  assumes "batch_ok w mem b"
  shows "\<exists>tr. doRun_task w mem b = Inr tr \<and>
           length (emitted_outputs tr) = tensor_total b \<and>
           (\<forall>out \<in> set (emitted_outputs tr).
              length (out_shape out) + 1 = length (runner_output_shape w) \<and>
              (\<forall>j < length (out_shape out).
                 out_shape out ! j = runner_output_shape w ! (j + 1)))"
proof -
  from assms have ne: "runner_output_shape w \<noteq> []"
    by (simp add: batch_ok_def)
  have "length (emitted_outputs (task_trace w mem b))
          = length (map out_data (emitted_outputs (task_trace w mem b)))"
    by simp
  then have len: "length (emitted_outputs (task_trace w mem b)) = tensor_total b"
    by (simp only: emitted_data_task length_map length_upt diff_zero)
  have "length (out_shape out) + 1 = length (runner_output_shape w) \<and>
        (\<forall>j < length (out_shape out). out_shape out ! j = runner_output_shape w ! (j + 1))"
    if "out \<in> set (emitted_outputs (task_trace w mem b))" for out
    using emitted_outputs_built [OF that] ne by (simp add: nth_tl)
  with len show ?thesis
    by (simp add: doRun_task_trace [OF assms])
qed

theorem response_shape_strips_batch_dimension_witness:
  "batch_ok example_worker example_memory example_batch \<and>
   (\<exists>tr. doRun_task example_worker example_memory example_batch = Inr tr \<and>
      length (emitted_outputs tr) = 2 \<and>
      (\<forall>out \<in> set (emitted_outputs tr).
         length (out_shape out) + 1 = length [2, 3 :: nat] \<and>
         (\<forall>j < length (out_shape out). out_shape out ! j = [2, 3] ! (j + 1))))"
  using response_shape_strips_batch_dimension [OF example_batch_ok] example_batch_ok
  by (simp only: example_shape example_total simp_thms)

text \<open>
  Claim C6.  For a well-formed batch, the \<open>k\<close>-th callback receives a response with one
  output per input of the \<open>k\<close>-th request, and output \<open>i\<close> is named as the request's
  declared output \<open>i\<close> where that name is not empty, and as the request's input \<open>i\<close>
  otherwise.\<close>

theorem response_output_names:
  assumes "batch_ok w mem b"
  shows "\<exists>tr. doRun_task w mem b = Inr tr \<and>
           length (callbacks_fired tr) = length (requests b) \<and>
           (\<forall>k < length (requests b).
              length (response_outputs (snd (callbacks_fired tr ! k)))
                = length (request_inputs (requests b ! k)) \<and>
              (\<forall>i < length (request_inputs (requests b ! k)).
                 out_name (response_outputs (snd (callbacks_fired tr ! k)) ! i)
                   = (if output_name (request_outputs (requests b ! k) ! i) \<noteq> []
                      then output_name (request_outputs (requests b ! k) ! i)
                      else input_name (request_inputs (requests b ! k) ! i))))"
  by (simp add: doRun_task_trace [OF assms] callbacks_fired_task built_response_def
        built_output_def)

theorem response_output_names_witness:
  "batch_ok example_worker example_memory example_batch \<and>
   (\<exists>tr. doRun_task example_worker example_memory example_batch = Inr tr \<and>
      length (callbacks_fired tr) = 2 \<and>
      map out_name (response_outputs (snd (callbacks_fired tr ! 0))) = [''x''] \<and>
      map out_name (response_outputs (snd (callbacks_fired tr ! 1))) = [''z''])"
proof -
  from response_output_names [OF example_batch_ok]
  obtain tr where tr: "doRun_task example_worker example_memory example_batch = Inr tr"
    and len: "length (callbacks_fired tr) = length (requests example_batch)"
    and names: "\<And>k. k < length (requests example_batch) \<Longrightarrow>
      length (response_outputs (snd (callbacks_fired tr ! k)))
        = length (request_inputs (requests example_batch ! k)) \<and>
      (\<forall>i < length (request_inputs (requests example_batch ! k)).
         out_name (response_outputs (snd (callbacks_fired tr ! k)) ! i)
           = (if output_name (request_outputs (requests example_batch ! k) ! i) \<noteq> []
              then output_name (request_outputs (requests example_batch ! k) ! i)
              else input_name (request_inputs (requests example_batch ! k) ! i)))"
    by blast
  from names [of 0]
  have n0: "map out_name (response_outputs (snd (callbacks_fired tr ! 0))) = [''x'']"
    by (simp add: example_batch_def length_Suc_conv) auto
  from names [of 1]
  have n1: "map out_name (response_outputs (snd (callbacks_fired tr ! 1))) = [''z'']"
    by (simp add: example_batch_def length_Suc_conv) auto
  from len have l2: "length (callbacks_fired tr) = 2"
    by (simp add: example_batch_def)
  show ?thesis
    by (intro conjI exI [of _ tr]) (rule example_batch_ok tr l2 n0 n1)+
qed

text \<open>
  Claim C10, as amended.  For a well-formed batch, the data of the \<open>n\<close>-th output tensor
  emitted (counting across the requests and their inputs in order) is the region of
  \<open>output_size\<close> bytes of the memory of the first buffer of the first output set at the
  offset \<open>n * output_size\<close> taken modulo \<open>2 ^ 32\<close>, which is how the code computes it; this
  is the offset \<open>n * output_size\<close> for every \<open>n\<close> whose product is below \<open>2 ^ 32\<close>; and
  the task does the same whatever the rest of memory holds, so no other buffer is read.\<close>

theorem outputs_copied_at_wrapped_offset:
  assumes "batch_ok w mem b"
  shows "\<exists>tr. doRun_task w mem b = Inr tr \<and>
           map out_data (emitted_outputs tr)
             = map (\<lambda>n. take (unat (output_size w))
                          (drop ((n * unat (output_size w)) mod 2 ^ 32)
                             (mem (first_output b))))
                 [0..<tensor_total b] \<and>
           (\<forall>n < tensor_total b. n * unat (output_size w) < 2 ^ 32 \<longrightarrow>
              out_data (emitted_outputs tr ! n)
                = take (unat (output_size w))
                    (drop (n * unat (output_size w)) (mem (first_output b)))) \<and>
           (\<forall>mem'. mem' (first_output b) = mem (first_output b) \<longrightarrow>
                    doRun_task w mem' b = Inr tr)"
proof -
  let ?tr = "task_trace w mem b"
  have frame: "doRun_task w mem' b = Inr ?tr"
    if "mem' (first_output b) = mem (first_output b)" for mem'
    using doRun_task_trace [OF batch_ok_same_first_output [where mem' = mem', OF assms that]]
    by (simp only: task_trace_same_first_output [where mem' = mem' and mem = mem, OF that])
  have len: "length (emitted_outputs ?tr) = tensor_total b"
    using arg_cong [OF emitted_data_task [of w mem b], of length] by simp
  have nth: "out_data (emitted_outputs ?tr ! n)
               = take (unat (output_size w))
                   (drop (n * unat (output_size w)) (mem (first_output b)))"
    if n: "n < tensor_total b" and small: "n * unat (output_size w) < 2 ^ 32" for n
  proof -
    have "out_data (emitted_outputs ?tr ! n) = map out_data (emitted_outputs ?tr) ! n"
      using n len by simp
    also have "\<dots> = take (unat (output_size w))
                       (drop ((n * unat (output_size w)) mod 2 ^ 32) (mem (first_output b)))"
      using n by (simp only: emitted_data_task) simp
    finally show ?thesis using small by simp
  qed
  from frame nth show ?thesis
    by (simp add: doRun_task_trace [OF assms] emitted_data_task)
qed

theorem outputs_copied_at_wrapped_offset_witness:
  "batch_ok example_worker example_memory example_batch \<and>
   (\<exists>tr. doRun_task example_worker example_memory example_batch = Inr tr \<and>
      map out_data (emitted_outputs tr) = [[11, 12, 13], [14, 15, 16]] \<and>
      out_data (emitted_outputs tr ! 1) = [14, 15, 16] \<and>
      (\<forall>mem'. mem' 2 = [11, 12, 13, 14, 15, 16] \<longrightarrow>
               doRun_task example_worker mem' example_batch = Inr tr))"
proof -
  from outputs_copied_at_wrapped_offset [OF example_batch_ok]
  have "\<exists>tr. doRun_task example_worker example_memory example_batch = Inr tr \<and>
          map out_data (emitted_outputs tr) = [[11, 12, 13], [14, 15, 16]] \<and>
          (\<forall>n < 2. n * 3 < 2 ^ 32 \<longrightarrow>
             out_data (emitted_outputs tr ! n)
               = take 3 (drop (n * 3) [11, 12, 13, 14, 15, 16])) \<and>
          (\<forall>mem'. mem' 2 = [11, 12, 13, 14, 15, 16] \<longrightarrow>
                   doRun_task example_worker mem' example_batch = Inr tr)"
    by (simp only: example_regions example_first_output)
       (simp only: example_total example_output_size)
  then show ?thesis
  proof (elim exE conjE)
    fix tr
    assume tr: "doRun_task example_worker example_memory example_batch = Inr tr"
      and all: "map out_data (emitted_outputs tr) = [[11, 12, 13], [14, 15, 16]]"
      and nth: "\<forall>n < 2. n * 3 < 2 ^ 32 \<longrightarrow>
                  out_data (emitted_outputs tr ! n)
                    = take 3 (drop (n * 3) [11, 12, 13, 14, 15, 16])"
      and frame: "\<forall>mem'. mem' 2 = [11, 12, 13, 14, 15, 16] \<longrightarrow>
                    doRun_task example_worker mem' example_batch = Inr tr"
    from nth [rule_format, of 1] have one: "out_data (emitted_outputs tr ! 1) = [14, 15, 16]"
      by simp
    show ?thesis
      by (intro conjI exI [of _ tr]) (rule example_batch_ok tr all one frame)+
  qed
qed

text \<open>
  Claim C10, as stated, fails: with an output tensor of \<open>2 ^ 30\<close> bytes and a request of
  five inputs, in a buffer that holds all five regions, the task runs to its end, and the
  fifth tensor emitted is not the region at offset \<open>4 * output_size\<close>, which holds ones,
  but the region at offset 0, which holds zeros.\<close>

theorem outputs_copied_offset_wraps_counterexample:
  "doRun_task wrap_worker wrap_memory wrap_batch
     = Inr (task_trace wrap_worker wrap_memory wrap_batch) \<and>
   out_data (emitted_outputs (task_trace wrap_worker wrap_memory wrap_batch) ! 4)
     = replicate (2 ^ 30) 0 \<and>
   take (unat (output_size wrap_worker))
     (drop (4 * unat (output_size wrap_worker)) (wrap_memory (first_output wrap_batch)))
     = replicate (2 ^ 30) 1 \<and>
   out_data (emitted_outputs (task_trace wrap_worker wrap_memory wrap_batch) ! 4)
     \<noteq> take (unat (output_size wrap_worker))
         (drop (4 * unat (output_size wrap_worker)) (wrap_memory (first_output wrap_batch)))"
proof (intro conjI)
  show "doRun_task wrap_worker wrap_memory wrap_batch
          = Inr (task_trace wrap_worker wrap_memory wrap_batch)"
    using wrap_batch_ok by (rule doRun_task_trace)
  show "out_data (emitted_outputs (task_trace wrap_worker wrap_memory wrap_batch) ! 4)
          = replicate (2 ^ 30) 0"
    by (rule wrap_fifth_output)
  show "take (unat (output_size wrap_worker))
          (drop (4 * unat (output_size wrap_worker)) (wrap_memory (first_output wrap_batch)))
          = replicate (2 ^ 30) 1"
    by (rule wrap_claimed_region)
  show "out_data (emitted_outputs (task_trace wrap_worker wrap_memory wrap_batch) ! 4)
          \<noteq> take (unat (output_size wrap_worker))
              (drop (4 * unat (output_size wrap_worker))
                 (wrap_memory (first_output wrap_batch)))"
    by (simp only: wrap_fifth_output wrap_claimed_region wrap_regions_differ not_False_eq_True)
qed

text \<open>
  Claim C7.  For a well-formed batch: if the kernel is \<open>DPUCADF8H\<close> the task synchronises
  no buffer at all; otherwise it first, for each submitted pair of buffer sets in turn,
  synchronises every input buffer of the pair for writing and then submits the job,
  then waits for every job, then synchronises every output buffer of the submitted sets
  for reading, and synchronises nothing after that.\<close>

theorem synchronisation_unless_DPUCADF8H:
  assumes "batch_ok w mem b"
  shows "\<exists>tr. doRun_task w mem b = Inr tr \<and>
           (kernel w = ''DPUCADF8H'' \<longrightarrow> filter is_sync tr = []) \<and>
           (kernel w \<noteq> ''DPUCADF8H'' \<longrightarrow>
              (\<exists>rest. tr =
                 concat (map (\<lambda>p. map write_sync (tensor_buffers (fst p)) @ [submission p])
                           (zip (input_buffers b) (output_buffers b)))
                 @ map Wait [0..<length (input_buffers b)]
                 @ map read_sync (submitted_outputs b)
                 @ rest \<and> filter is_sync rest = []))"
proof -
  have none: "filter is_sync (task_trace w mem b) = []" if "kernel w = ''DPUCADF8H''"
    by (rule filter_sync_none)
       (auto simp: task_trace_def that job_events_def submission_def callback_events_def)
  have all: "\<exists>rest. task_trace w mem b =
                 concat (map (\<lambda>p. map write_sync (tensor_buffers (fst p)) @ [submission p])
                           (zip (input_buffers b) (output_buffers b)))
                 @ map Wait [0..<length (input_buffers b)]
                 @ map read_sync (submitted_outputs b)
                 @ rest \<and> filter is_sync rest = []"
    if "kernel w \<noteq> ''DPUCADF8H''"
  proof (intro exI conjI)
    show "task_trace w mem b =
            concat (map (\<lambda>p. map write_sync (tensor_buffers (fst p)) @ [submission p])
                      (zip (input_buffers b) (output_buffers b)))
            @ map Wait [0..<length (input_buffers b)]
            @ map read_sync (submitted_outputs b)
            @ (callback_events w mem b
               @ [ReturnBuffers (input_buffers b) (output_buffers b), PoolSizeDecrement])"
    proof -
      have "job_events w = (\<lambda>p. map write_sync (tensor_buffers (fst p)) @ [submission p])"
        using that by (intro ext) (simp add: job_events_def)
      with that show ?thesis by (simp add: task_trace_def)
    qed
    show "filter is_sync (callback_events w mem b
            @ [ReturnBuffers (input_buffers b) (output_buffers b), PoolSizeDecrement]) = []"
      by (simp add: callback_events_no_sync)
  qed
  from none all show ?thesis
    by (simp only: doRun_task_trace [OF assms] sum.inject simp_thms ex_simps) blast
qed

theorem synchronisation_unless_DPUCADF8H_witness:
  "batch_ok example_worker example_memory example_batch \<and>
   (\<exists>tr. doRun_task example_worker example_memory example_batch = Inr tr \<and>
      (\<exists>rest. tr = [SyncForWrite 1 0 3, ExecuteAsync [1] [2], Wait 0, SyncForRead 2 0 3] @ rest
         \<and> filter is_sync rest = [])) \<and>
   batch_ok (example_worker\<lparr>kernel := ''DPUCADF8H''\<rparr>) example_memory example_batch \<and>
   (\<exists>tr. doRun_task (example_worker\<lparr>kernel := ''DPUCADF8H''\<rparr>) example_memory example_batch
           = Inr tr \<and> filter is_sync tr = [])"
proof -
  have ok: "batch_ok (example_worker\<lparr>kernel := ''DPUCADF8H''\<rparr>) example_memory example_batch"
    by (simp add: batch_ok_def example_worker_def example_batch_def example_memory_def
          example_tensor_def XModel_new_def runner_output_shape_def tensor_total_def
          first_output_def tensor_buffers_def)
  have "\<exists>tr. doRun_task example_worker example_memory example_batch = Inr tr \<and>
      (\<exists>rest. tr = [SyncForWrite 1 0 3, ExecuteAsync [1] [2], Wait 0, SyncForRead 2 0 3] @ rest
         \<and> filter is_sync rest = [])"
    using synchronisation_unless_DPUCADF8H [OF example_batch_ok]
    by (simp only: example_kernel example_sync_events simp_thms if_False)
  moreover have "\<exists>tr. doRun_task (example_worker\<lparr>kernel := ''DPUCADF8H''\<rparr>) example_memory
                       example_batch = Inr tr \<and> filter is_sync tr = []"
    using synchronisation_unless_DPUCADF8H [OF ok] by auto
  ultimately show ?thesis using example_batch_ok ok by blast
qed

section \<open>The claims about the other hooks\<close>

text \<open>
  Claim C4.  With a thread pool whose fourfold size fits an \<open>int\<close>, the consumer pushes
  every batch that it dequeues before the null batch, each once and in the order of
  arrival, whatever the value of the counter: nothing is rejected or dropped.  Before a
  push it sleeps 10 milliseconds exactly when \<open>pool_size\<close>, the atomic count of the
  batches handed over and not yet finished (the batch at hand included), exceeds four
  times the size of the pool.\<close>

theorem backpressure_sleeps_never_drops:
  assumes "pool_threads w * 4 < 2 ^ 31"
  shows "\<exists>evs. doRun w as = Inr evs \<and>
           concat (map pushed evs) = accepted as \<and>
           length (compared 0 as) = length (accepted as) \<and>
           evs = concat (map (\<lambda>p. (if int (4 * pool_threads w) < sint (fst p)
                                    then [Sleep 10] else []) @ [Push (snd p)])
                          (zip (compared 0 as) (accepted as)))
                 @ (if shut_down as then [Ending] else [])"
proof -
  let ?evs = "doRun_loop (int (pool_threads w * 4)) 0 as"
  have d: "dispatch (int (pool_threads w * 4))
          = (\<lambda>p. (if int (4 * pool_threads w) < sint (fst p) then [Sleep 10] else [])
                 @ [Push (snd p)])"
    by (intro ext) (simp add: dispatch_def mult.commute)
  have tr: "?evs
          = concat (map (\<lambda>p. (if int (4 * pool_threads w) < sint (fst p)
                               then [Sleep 10] else []) @ [Push (snd p)])
                     (zip (compared 0 as) (accepted as)))
            @ (if shut_down as then [Ending] else [])"
    by (simp only: doRun_loop_trace d)
  have run: "doRun w as = Inr ?evs"
    using assms by (simp add: doRun_def)
  show ?thesis
  proof (intro exI conjI)
    show "doRun w as = Inr ?evs" by (rule run)
    show "concat (map pushed ?evs) = accepted as" by (rule doRun_loop_pushed)
    show "length (compared 0 as) = length (accepted as)" by (rule length_compared)
    show "?evs
          = concat (map (\<lambda>p. (if int (4 * pool_threads w) < sint (fst p)
                               then [Sleep 10] else []) @ [Push (snd p)])
                     (zip (compared 0 as) (accepted as)))
            @ (if shut_down as then [Ending] else [])"
      by (rule tr)
  qed
qed

theorem backpressure_sleeps_never_drops_witness:
  "pool_threads example_worker * 4 < 2 ^ 31 \<and>
   (\<exists>evs. doRun example_worker example_arrivals = Inr evs \<and>
      concat (map pushed evs)
        = [example_batch, example_batch, example_batch, example_batch, example_batch,
           example_batch] \<and>
      evs = [Push example_batch, Push example_batch, Push example_batch, Push example_batch,
             Sleep 10, Push example_batch, Push example_batch, Ending])"
proof -
  have h: "pool_threads example_worker * 4 < 2 ^ 31"
    by (simp add: example_worker_def XModel_new_def)
  have a: "accepted example_arrivals
             = [example_batch, example_batch, example_batch, example_batch, example_batch,
                example_batch]"
    by (simp add: example_arrivals_def)
  have c: "compared 0 example_arrivals = [1, 2, 3, 4, 5, 4]"
    by (simp add: example_arrivals_def)
  have s: "shut_down example_arrivals"
    by (simp add: example_arrivals_def shut_down_def)
  have t: "pool_threads example_worker = 1"
    by (simp add: example_worker_def XModel_new_def)
  show ?thesis
    using backpressure_sleeps_never_drops [OF h, of example_arrivals] h
    by (simp add: a c s t)
qed

text \<open>
  Claim C8.  For a worker whose runner is set, \<open>doAllocate\<close> appends to the input queue
  and to the output queue of the pool the same number of new buffer sets, each set with
  one buffer per tensor of the runner, and returns that number: the number asked for,
  or 10 where the request is for the automatic number.\<close>

theorem doAllocate_enqueues_requested_count:
  assumes "runner w = Some r"
  shows "\<exists>w' n new_inputs new_outputs.
           doAllocate k num w = Inr (w', n) \<and>
           n = (if requests_auto k num then 10 else num) \<and>
           input_buffers_queue w' = input_buffers_queue w @ new_inputs \<and>
           length new_inputs = unat n \<and>
           output_buffers_queue w' = output_buffers_queue w @ new_outputs \<and>
           length new_outputs = unat n \<and>
           (\<forall>v \<in> set new_inputs. length v = length (input_tensors r)) \<and>
           (\<forall>v \<in> set new_outputs. length v = length (output_tensors r))"
  by (auto simp: doAllocate_result [OF assms] Let_def allocated_sets_def)

theorem doAllocate_enqueues_requested_count_witness:
  "runner example_worker = Some \<lparr>input_tensors = [example_tensor],
                                  output_tensors = [example_tensor]\<rparr> \<and>
   (\<exists>w' new_inputs new_outputs.
      doAllocate (- 1) 3 example_worker = Inr (w', 3) \<and>
      input_buffers_queue w' = new_inputs \<and> length new_inputs = 3 \<and>
      output_buffers_queue w' = new_outputs \<and> length new_outputs = 3) \<and>
   (\<exists>w' new_inputs new_outputs.
      doAllocate (- 1) (- 1) example_worker = Inr (w', 10) \<and>
      input_buffers_queue w' = new_inputs \<and> length new_inputs = 10 \<and>
      output_buffers_queue w' = new_outputs \<and> length new_outputs = 10)"
proof -
  have h: "runner example_worker = Some \<lparr>input_tensors = [example_tensor],
                                         output_tensors = [example_tensor]\<rparr>"
    by (simp add: example_worker_def XModel_new_def)
  have q: "input_buffers_queue example_worker = []" "output_buffers_queue example_worker = []"
    by (simp_all add: example_worker_def XModel_new_def)
  have "(ucast (- 1 :: 64 word) :: 32 word) = - 1"
    by (rule bit_word_eqI) (simp add: bit_simps)
  then have a3: "\<not> requests_auto (- 1) 3" and a: "requests_auto (- 1) (- 1)"
    by (simp_all add: requests_auto_def)
  show ?thesis
    using doAllocate_enqueues_requested_count [OF h, of "- 1" 3]
      doAllocate_enqueues_requested_count [OF h, of "- 1" "- 1"] h
    by (simp add: q a3 a) blast
qed

text \<open>
  Claim C9 fails on the code.  After \<open>futures.reserve(max)\<close> the vector \<open>futures\<close> is
  empty, and \<open>futures[i]\<close> at line 62 indexes it out of range for the first future
  dequeued already, which is undefined: a future that resolved to a response without
  error flag, with one output and an identifier that \<open>std::stoul\<close> converts, is not
  reported to the sink.\<close>

theorem FinishQuery_reads_empty_vector:
  "FinishQuery example_stoul
     [[\<lparr>isError = False, getID = ''7'', getOutputs = [\<lparr>getData = 100, getSize = 4\<rparr>]\<rparr>]] []
     = Inl UndefinedBehaviour"
  by (rule FinishQuery_indexes_empty_vector) simp

text \<open>
  Claim C3 fails on the code.  Where the model loads and none of its subgraphs has the
  device attribute \<open>DPU\<close>, \<open>doInit\<close> does not fail with an error: it reads the first
  element of the empty vector \<open>dpu_graphs\<close> at line 144, which is undefined.\<close>

theorem doInit_no_dpu_subgraph:
  "doInit example_runtime [] XModel_new = Inl UndefinedBehaviour"
  by (simp add: doInit_def example_runtime_def has_param_def collect_dpu_def
        get_attr_string_def at_def)

section \<open>The claim about the buffer pool\<close>

text \<open>
  Claim C2.  Let a worker whose runner is set, with at least one input and one output
  tensor and with empty queues, allocate its buffer sets.  Then allocation succeeds, and
  in every state that the pool reaches from there, by checkouts and by tasks running to
  their end in any interleaving,
  \<^item> the queued and the checked-out input sets together number what \<open>doAllocate\<close>
    returned, and so do the output sets;
  \<^item> no set occurs twice among the queued sets and the sets of the batches in flight, and
    these are exactly the allocated sets: every set is queued or checked out to one batch,
    never both, never neither.
  Moreover every task that reaches its end has returned the input and the output sets of
  its batch exactly once, after every other event but the decrement of the counter (so
  after all its callbacks); and the task of a well-formed batch does reach its end.\<close>

theorem buffer_sets_conserved:
  assumes "runner w0 = Some r" and "input_tensors r \<noteq> []" and "output_tensors r \<noteq> []"
    and "input_buffers_queue w0 = []" and "output_buffers_queue w0 = []"
  shows "\<exists>w n. doAllocate k num w0 = Inr (w, n) \<and>
           (\<forall>s. reachable w (pool_of w) s \<longrightarrow>
              length (queued_inputs s) + length (checked_out_inputs s) = unat n \<and>
              length (queued_outputs s) + length (checked_out_outputs s) = unat n \<and>
              distinct (queued_inputs s @ checked_out_inputs s) \<and>
              set (queued_inputs s @ checked_out_inputs s) = set (input_buffers_queue w) \<and>
              distinct (queued_outputs s @ checked_out_outputs s) \<and>
              set (queued_outputs s @ checked_out_outputs s) = set (output_buffers_queue w)) \<and>
           (\<forall>b mem tr. doRun_task w mem b = Inr tr \<longrightarrow>
              (\<exists>pre. tr = pre @ [ReturnBuffers (input_buffers b) (output_buffers b),
                                  PoolSizeDecrement]
                     \<and> filter is_return pre = []
                     \<and> callbacks_fired pre = callbacks_fired tr)) \<and>
           (\<forall>b mem. batch_ok w mem b \<longrightarrow> (\<exists>tr. doRun_task w mem b = Inr tr))"
proof -
  define n where "n = (if requests_auto k num then 10 else num)"
  define a where "a = next_addr w0 + unat n * length (input_tensors r)"
  define ins where "ins = allocated_sets (input_tensors r) (next_addr w0) (unat n)"
  define outs where "outs = allocated_sets (output_tensors r) a (unat n)"
  define w where
    "w = w0\<lparr>input_buffers_queue := ins, output_buffers_queue := outs,
            next_addr := a + unat n * length (output_tensors r)\<rparr>"
  have alloc: "doAllocate k num w0 = Inr (w, n)"
    using assms(4,5)
    by (simp add: doAllocate_result [OF assms(1)] Let_def n_def a_def ins_def outs_def w_def)
  have lens: "length ins = unat n" "length outs = unat n"
    by (simp_all add: ins_def outs_def allocated_sets_def)
  have dist: "distinct ins" "distinct outs"
    using assms(2,3) by (simp_all add: ins_def outs_def distinct_allocated_sets)
  have inv: "length (queued_inputs s) + length (checked_out_inputs s) = unat n \<and>
             length (queued_outputs s) + length (checked_out_outputs s) = unat n \<and>
             distinct (queued_inputs s @ checked_out_inputs s) \<and>
             set (queued_inputs s @ checked_out_inputs s) = set (input_buffers_queue w) \<and>
             distinct (queued_outputs s @ checked_out_outputs s) \<and>
             set (queued_outputs s @ checked_out_outputs s) = set (output_buffers_queue w)"
    if "reachable w (pool_of w) s" for s
  proof -
    from reachable_conserves [OF that]
    have mi: "mset (queued_inputs s @ checked_out_inputs s) = mset ins"
      and mo: "mset (queued_outputs s @ checked_out_outputs s) = mset outs"
      by (simp_all add: pool_of_def w_def checked_out_inputs_def checked_out_outputs_def)
    from mi have "length (queued_inputs s @ checked_out_inputs s) = length ins"
      by (rule mset_eq_length)
    moreover from mo have "length (queued_outputs s @ checked_out_outputs s) = length outs"
      by (rule mset_eq_length)
    moreover from mi dist(1) have "distinct (queued_inputs s @ checked_out_inputs s)"
      by (simp only: mset_eq_imp_distinct_iff [OF mi])
    moreover from mo dist(2) have "distinct (queued_outputs s @ checked_out_outputs s)"
      by (simp only: mset_eq_imp_distinct_iff [OF mo])
    moreover from mi have "set (queued_inputs s @ checked_out_inputs s) = set ins"
      by (rule mset_eq_setD)
    moreover from mo have "set (queued_outputs s @ checked_out_outputs s) = set outs"
      by (rule mset_eq_setD)
    ultimately show ?thesis
      using lens by (simp add: w_def)
  qed
  have ret: "\<forall>b mem tr. doRun_task w mem b = Inr tr \<longrightarrow>
              (\<exists>pre. tr = pre @ [ReturnBuffers (input_buffers b) (output_buffers b),
                                  PoolSizeDecrement]
                     \<and> filter is_return pre = []
                     \<and> callbacks_fired pre = callbacks_fired tr)"
  proof (intro allI impI)
    fix b mem tr
    assume "doRun_task w mem b = Inr tr"
    from doRun_task_returns_last [OF this] obtain pre where
      pre: "tr = pre @ [ReturnBuffers (input_buffers b) (output_buffers b), PoolSizeDecrement]"
        "filter is_return pre = []"
      by blast
    then have "callbacks_fired pre = callbacks_fired tr"
      by (simp add: callbacks_fired_def)
    with pre show "\<exists>pre. tr = pre @ [ReturnBuffers (input_buffers b) (output_buffers b),
                                     PoolSizeDecrement]
                     \<and> filter is_return pre = []
                     \<and> callbacks_fired pre = callbacks_fired tr"
      by blast
  qed
  have ends: "\<forall>b mem. batch_ok w mem b \<longrightarrow> (\<exists>tr. doRun_task w mem b = Inr tr)"
    using doRun_task_trace by blast
  from alloc inv ret ends show ?thesis by blast
qed

theorem buffer_sets_conserved_witness:
  "runner example_worker
     = Some \<lparr>input_tensors = [example_tensor], output_tensors = [example_tensor]\<rparr> \<and>
   [example_tensor] \<noteq> [] \<and>
   input_buffers_queue example_worker = [] \<and> output_buffers_queue example_worker = [] \<and>
   (\<exists>w n. doAllocate (- 1) 2 example_worker = Inr (w, n) \<and> unat n = 2 \<and>
      reachable w (pool_of w) (checkout [] 1 1 (pool_of w)) \<and>
      length (queued_inputs (checkout [] 1 1 (pool_of w))) = 1 \<and>
      length (checked_out_inputs (checkout [] 1 1 (pool_of w))) = 1 \<and>
      distinct (queued_inputs (checkout [] 1 1 (pool_of w))
                @ checked_out_inputs (checkout [] 1 1 (pool_of w))))"
proof -
  have h: "runner example_worker
     = Some \<lparr>input_tensors = [example_tensor], output_tensors = [example_tensor]\<rparr>"
    by (simp add: example_worker_def XModel_new_def)
  have q: "input_buffers_queue example_worker = []" "output_buffers_queue example_worker = []"
    by (simp_all add: example_worker_def XModel_new_def)
  from buffer_sets_conserved [OF h _ _ q, of "- 1" 2]
  obtain w n where alloc: "doAllocate (- 1) 2 example_worker = Inr (w, n)"
    and inv: "\<And>s. reachable w (pool_of w) s \<Longrightarrow>
               length (queued_inputs s) + length (checked_out_inputs s) = unat n \<and>
               length (queued_outputs s) + length (checked_out_outputs s) = unat n \<and>
               distinct (queued_inputs s @ checked_out_inputs s)"
    by auto
  have "\<not> requests_auto (- 1) 2"
    by (simp add: requests_auto_def)
  with alloc have n: "unat n = 2"
    by (auto simp: doAllocate_result [OF h] Let_def)
  from inv [OF reach_start] have len: "length (input_buffers_queue w) = 2"
    "length (output_buffers_queue w) = 2"
    by (simp_all add: n checked_out_inputs_def checked_out_outputs_def pool_of_def)
  have reach: "reachable w (pool_of w) (checkout [] 1 1 (pool_of w))"
    by (rule reach_step [OF reach_start step_checkout]) (simp_all add: len pool_of_def)
  from inv [OF reach] len
  have "length (queued_inputs (checkout [] 1 1 (pool_of w))) = 1"
    "length (checked_out_inputs (checkout [] 1 1 (pool_of w))) = 1"
    "distinct (queued_inputs (checkout [] 1 1 (pool_of w))
                @ checked_out_inputs (checkout [] 1 1 (pool_of w)))"
    by (simp_all add: checkout_def checked_out_inputs_def pool_of_def)
  with h q alloc n reach show ?thesis by blast
qed

end
